theory Spec2Isabelle
  imports Main "HOL-Library.AList" "HOL-Library.Multiset"
begin

section \<open>Strings of the scanner\<close>

text \<open>
  A JavaScript string is modelled as a \<^typ>\<open>string\<close>: a list of code units below 256
  (Latin-1). The scanned Go sources and every identifierRx the scanner accepts are ASCII.
\<close>

definition is_space :: "char \<Rightarrow> bool" where
  \<comment> \<open>the regular expression class \<open>\s\<close> and the characters \<open>trim()\<close> strips:
      TAB, LF, VT, FF, CR, SPACE, NBSP\<close>
  "is_space c = ((of_char c :: nat) \<in> {9, 10, 11, 12, 13, 32, 160})"

definition is_line_term :: "char \<Rightarrow> bool" where
  "is_line_term c = ((of_char c :: nat) = 10 \<or> (of_char c :: nat) = 13)"

definition any_char :: "char \<Rightarrow> bool" where
  \<comment> \<open>the regular expression \<open>.\<close>: anything but a line terminator\<close>
  "any_char c = (\<not> is_line_term c)"

definition is_upper :: "char \<Rightarrow> bool" where
  "is_upper c = (65 \<le> (of_char c :: nat) \<and> (of_char c :: nat) \<le> 90)"

definition is_lower :: "char \<Rightarrow> bool" where
  "is_lower c = (97 \<le> (of_char c :: nat) \<and> (of_char c :: nat) \<le> 122)"

definition is_digit :: "char \<Rightarrow> bool" where
  "is_digit c = (48 \<le> (of_char c :: nat) \<and> (of_char c :: nat) \<le> 57)"

definition is_word :: "char \<Rightarrow> bool" where
  \<comment> \<open>the class \<open>\w\<close>, which is also \<open>[A-Za-z0-9_]\<close>\<close>
  "is_word c = (is_upper c \<or> is_lower c \<or> is_digit c \<or> c = CHR ''_'')"

definition is_ident_start :: "char \<Rightarrow> bool" where
  \<comment> \<open>the class \<open>[A-Za-z_]\<close>\<close>
  "is_ident_start c = (is_upper c \<or> is_lower c \<or> c = CHR ''_'')"

definition lower_char :: "char \<Rightarrow> char" where
  \<comment> \<open>\<open>toLowerCase\<close> on one Latin-1 code unit: A-Z and the accented capitals
      U+00C0..U+00DE (but the multiplication sign U+00D7) move up by 32\<close>
  "lower_char c =
     (let n = (of_char c :: nat)
      in if (65 \<le> n \<and> n \<le> 90) \<or> (192 \<le> n \<and> n \<le> 222 \<and> n \<noteq> 215)
         then char_of (n + 32) else c)"

definition toLowerCase :: "string \<Rightarrow> string" where
  "toLowerCase s = map lower_char s"

definition trim :: "string \<Rightarrow> string" where
  "trim s = rev (dropWhile is_space (rev (dropWhile is_space s)))"

fun startsWith :: "string \<Rightarrow> string \<Rightarrow> bool" where
  "startsWith s [] = True"
| "startsWith [] (p # ps) = False"
| "startsWith (c # cs) (p # ps) = (c = p \<and> startsWith cs ps)"

definition endsWith :: "string \<Rightarrow> string \<Rightarrow> bool" where
  "endsWith s p = startsWith (rev s) (rev p)"

fun includesStr :: "string \<Rightarrow> string \<Rightarrow> bool" where
  "includesStr [] t = (t = [])"
| "includesStr (c # cs) t = (startsWith (c # cs) t \<or> includesStr cs t)"

fun join :: "string \<Rightarrow> string list \<Rightarrow> string" where
  "join sep [] = []"
| "join sep [x] = x"
| "join sep (x # y # ys) = x @ sep @ join sep (y # ys)"

text \<open>
  \<open>split(/\r?\n/)\<close>: the text is cut at every LF, and a CR right before the LF belongs to
  the separator. \<open>cur\<close> holds the characters of the current piece, newest first.
\<close>

fun splitLinesFrom :: "string \<Rightarrow> string \<Rightarrow> string list" where
  "splitLinesFrom cur [] = [rev cur]"
| "splitLinesFrom cur (c # cs) =
     (if c = CHR 0x0A then
        (case cur of
           d # ds \<Rightarrow> (if d = CHR 0x0D then rev ds else rev cur) # splitLinesFrom [] cs
         | [] \<Rightarrow> [] # splitLinesFrom [] cs)
      else splitLinesFrom (c # cur) cs)"

definition splitLines :: "string \<Rightarrow> string list" where
  "splitLines s = splitLinesFrom [] s"

text \<open>
  \<open>split(/\s+/)\<close>: the text is cut at every maximal run of white space; inside a run the
  scan moves on, and the last character of the run closes the piece.
\<close>

fun splitSpacesFrom :: "string \<Rightarrow> string \<Rightarrow> string list" where
  "splitSpacesFrom cur [] = [rev cur]"
| "splitSpacesFrom cur (c # cs) =
     (if is_space c then
        (case cs of
           [] \<Rightarrow> [rev cur, []]
         | d # ds \<Rightarrow> if is_space d then splitSpacesFrom cur cs else rev cur # splitSpacesFrom [] cs)
      else splitSpacesFrom (c # cur) cs)"

definition splitSpaces :: "string \<Rightarrow> string list" where
  "splitSpaces s = splitSpacesFrom [] s"

text \<open>\<open>split(',')\<close> and \<open>split('/')\<close>: the text is cut at every occurrence of one character.\<close>

fun splitCharFrom :: "char \<Rightarrow> string \<Rightarrow> string \<Rightarrow> string list" where
  "splitCharFrom sep cur [] = [rev cur]"
| "splitCharFrom sep cur (c # cs) =
     (if c = sep then rev cur # splitCharFrom sep [] cs
      else splitCharFrom sep (c # cur) cs)"

definition splitChar :: "char \<Rightarrow> string \<Rightarrow> string list" where
  "splitChar sep s = splitCharFrom sep [] s"

text \<open>\<open>Array.from(new Set(xs))\<close>: the first occurrence of every element, in order.\<close>

fun dedupeFrom :: "'a list \<Rightarrow> 'a list \<Rightarrow> 'a list" where
  "dedupeFrom seen [] = []"
| "dedupeFrom seen (x # xs) =
     (if x \<in> set seen then dedupeFrom seen xs else x # dedupeFrom (x # seen) xs)"

definition dedupe :: "'a list \<Rightarrow> 'a list" where
  "dedupe xs = dedupeFrom [] xs"

text \<open>
  \<open>Array.prototype.sort(compare)\<close> is stable; with a consistent comparator the result is
  the stable insertion of every element into the sorted rest, which is what \<open>sortBy\<close>
  computes. \<open>compare a b \<le> 0\<close> keeps \<open>a\<close> before \<open>b\<close>.
\<close>

fun insertBy :: "('a \<Rightarrow> 'a \<Rightarrow> int) \<Rightarrow> 'a \<Rightarrow> 'a list \<Rightarrow> 'a list" where
  "insertBy cmp x [] = [x]"
| "insertBy cmp x (y # ys) =
     (if cmp x y \<le> 0 then x # y # ys else y # insertBy cmp x ys)"

definition sortBy :: "('a \<Rightarrow> 'a \<Rightarrow> int) \<Rightarrow> 'a list \<Rightarrow> 'a list" where
  "sortBy cmp xs = foldr (insertBy cmp) xs []"

section \<open>The regular expressions of the scanner\<close>

text \<open>
  The patterns of the source are sequences of literals, character classes with the greedy
  quantifiers \<open>*\<close>, \<open>+\<close> and \<open>?\<close>, capture groups, optional groups, \<open>\b\<close> and \<open>$\<close>. \<open>rxm\<close> is
  the backtracking matcher of the language: the first alternative that lets the rest of the
  pattern match wins, and a greedy quantifier tries the longer repetition first.
  \<open>pre\<close> is the text already consumed, newest first; \<open>caps\<close> are the groups closed so far.
\<close>

datatype rx =
    Lit char
  | Cls "char \<Rightarrow> bool"
  | Star "char \<Rightarrow> bool"
  | Plus "char \<Rightarrow> bool"
  | Opt1 "char \<Rightarrow> bool"
  | Opt "rx list"
  | Cap nat "rx list"
  | CapEnd nat nat
  | WordB
  | Eos

fun rxsz :: "rx \<Rightarrow> nat" where
  "rxsz (Opt rs) = Suc (sum_list (map rxsz rs))"
| "rxsz (Cap n rs) = Suc (Suc (sum_list (map rxsz rs)))"
| "rxsz (Plus p) = 3"
| "rxsz r = 1"

definition word_boundary :: "string \<Rightarrow> string \<Rightarrow> bool" where
  "word_boundary pre s =
     ((case pre of [] \<Rightarrow> False | c # _ \<Rightarrow> is_word c) \<noteq> (case s of [] \<Rightarrow> False | c # _ \<Rightarrow> is_word c))"

function rxm :: "rx list \<Rightarrow> string \<Rightarrow> string \<Rightarrow> (nat \<times> string) list
                  \<Rightarrow> ((nat \<times> string) list \<times> string) option" where
  "rxm [] pre s caps = Some (caps, s)"
| "rxm (Lit c # r) pre s caps =
     (case s of [] \<Rightarrow> None | x # xs \<Rightarrow> if x = c then rxm r (x # pre) xs caps else None)"
| "rxm (Cls p # r) pre s caps =
     (case s of [] \<Rightarrow> None | x # xs \<Rightarrow> if p x then rxm r (x # pre) xs caps else None)"
| "rxm (Star p # r) pre s caps =
     (case s of [] \<Rightarrow> rxm r pre s caps
      | x # xs \<Rightarrow>
          if p x then
            (case rxm (Star p # r) (x # pre) xs caps of
               Some m \<Rightarrow> Some m
             | None \<Rightarrow> rxm r pre s caps)
          else rxm r pre s caps)"
| "rxm (Plus p # r) pre s caps = rxm (Cls p # Star p # r) pre s caps"
| "rxm (Opt1 p # r) pre s caps =
     (case s of [] \<Rightarrow> rxm r pre s caps
      | x # xs \<Rightarrow>
          if p x then
            (case rxm r (x # pre) xs caps of
               Some m \<Rightarrow> Some m
             | None \<Rightarrow> rxm r pre s caps)
          else rxm r pre s caps)"
| "rxm (Opt rs # r) pre s caps =
     (case rxm (rs @ r) pre s caps of Some m \<Rightarrow> Some m | None \<Rightarrow> rxm r pre s caps)"
| "rxm (Cap n rs # r) pre s caps = rxm (rs @ CapEnd n (length pre) # r) pre s caps"
| "rxm (CapEnd n start # r) pre s caps =
     rxm r pre s ((n, rev (take (length pre - start) pre)) # caps)"
| "rxm (WordB # r) pre s caps = (if word_boundary pre s then rxm r pre s caps else None)"
| "rxm (Eos # r) pre s caps = (if s = [] then rxm r pre s caps else None)"
  by pat_completeness auto
termination
  by (relation "measures [\<lambda>(r, pre, s, caps). sum_list (map rxsz r), \<lambda>(r, pre, s, caps). length s]")
     auto

definition lits :: "string \<Rightarrow> rx list" where
  "lits s = map Lit s"

definition group :: "(nat \<times> string) list \<Rightarrow> nat \<Rightarrow> string" where
  \<comment> \<open>the text of a capture group that took part in the match\<close>
  "group caps n = (case map_of caps n of Some g \<Rightarrow> g | None \<Rightarrow> [])"

definition matchStart :: "rx list \<Rightarrow> string \<Rightarrow> ((nat \<times> string) list \<times> string) option" where
  \<comment> \<open>a pattern that begins with \<open>^\<close>: the captures and the text after the match\<close>
  "matchStart r s = rxm r [] s []"

definition testStart :: "rx list \<Rightarrow> string \<Rightarrow> bool" where
  "testStart r s = (matchStart r s \<noteq> None)"

text \<open>
  A pattern without \<open>^\<close> is tried at every position from the left; the result is the text
  before the first match and the text after it.
\<close>

fun searchFrom :: "rx list \<Rightarrow> string \<Rightarrow> string \<Rightarrow> (string \<times> string) option" where
  "searchFrom r pre [] = (case rxm r pre [] [] of Some (caps, rest) \<Rightarrow> Some (rev pre, rest) | None \<Rightarrow> None)"
| "searchFrom r pre (c # cs) =
     (case rxm r pre (c # cs) [] of
        Some (caps, rest) \<Rightarrow> Some (rev pre, rest)
      | None \<Rightarrow> searchFrom r (c # pre) cs)"

definition removeFirst :: "rx list \<Rightarrow> string \<Rightarrow> string" where
  \<comment> \<open>\<open>s.replace(pattern, '')\<close> for a pattern without \<open>^\<close>\<close>
  "removeFirst r s = (case searchFrom r [] s of Some (before, rest) \<Rightarrow> before @ rest | None \<Rightarrow> s)"

definition removeStart :: "rx list \<Rightarrow> string \<Rightarrow> string" where
  \<comment> \<open>\<open>s.replace(pattern, '')\<close> for a pattern that begins with \<open>^\<close>\<close>
  "removeStart r s = (case matchStart r s of Some (caps, rest) \<Rightarrow> rest | None \<Rightarrow> s)"

section \<open>Documentation above a declaration\<close>

datatype error = TypeError

text \<open>
  The loop of \<open>extractDocAbove\<close>. The counter is \<open>cursor + 1\<close>, so that the loop test
  \<open>cursor >= 0\<close> is the pattern \<open>Suc cursor\<close>; \<open>docs.unshift(x)\<close> is \<open>x # docs\<close>.
\<close>

fun docWalk :: "string list \<Rightarrow> nat \<Rightarrow> string list \<Rightarrow> string list" where
  "docWalk lines 0 docs = docs"
| "docWalk lines (Suc cursor) docs =
     (let raw = lines ! cursor; trimmed = trim raw
      in if trimmed = [] then
           (if length docs = 0 then docWalk lines cursor docs else docs)
         else if startsWith trimmed ''//'' then
           docWalk lines cursor (removeStart (lits ''//'' @ [Opt1 is_space]) trimmed # docs)
         else if endsWith trimmed ''*/'' \<or> startsWith trimmed ''/*'' \<or> startsWith trimmed ''*'' then
           docWalk lines cursor
             (trim (removeFirst (lits ''*/'' @ [Eos])
                (removeStart [Lit (CHR ''*''), Opt1 is_space]
                  (removeStart [Lit (CHR ''/''), Plus (\<lambda>c. c = CHR ''*''), Opt1 is_space] trimmed)))
              # docs)
         else docs)"

text \<open>
  \<open>extractDocAbove\<close> returns the joined text, or \<open>undefined\<close> (here \<open>None\<close>) when it is empty.
  Reading \<open>lines[cursor]\<close> beyond the array gives \<open>undefined\<close>, whose \<open>trim\<close> raises.
\<close>

definition extractDocAbove :: "string list \<Rightarrow> nat \<Rightarrow> error + string option" where
  "extractDocAbove lines lineIndex =
     (if length lines < lineIndex then Inl TypeError
      else (let text = trim (join '' '' (docWalk lines lineIndex []))
            in Inr (if text = [] then None else Some text)))"

text \<open>The tests of the loop, named: what it takes for blank, and what it takes for a comment.\<close>

definition isBlankLine :: "string \<Rightarrow> bool" where
  "isBlankLine raw = (trim raw = [])"

definition isCommentLine :: "string \<Rightarrow> bool" where
  "isCommentLine raw =
     (let trimmed = trim raw
      in trimmed \<noteq> [] \<and> (startsWith trimmed ''//'' \<or> endsWith trimmed ''*/''
           \<or> startsWith trimmed ''/*'' \<or> startsWith trimmed ''*''))"

definition docText :: "string \<Rightarrow> string" where
  \<comment> \<open>what the loop keeps of a comment line\<close>
  "docText raw =
     (let trimmed = trim raw
      in if startsWith trimmed ''//'' then removeStart (lits ''//'' @ [Opt1 is_space]) trimmed
         else trim (removeFirst (lits ''*/'' @ [Eos])
                (removeStart [Lit (CHR ''*''), Opt1 is_space]
                  (removeStart [Lit (CHR ''/''), Plus (\<lambda>c. c = CHR ''*''), Opt1 is_space] trimmed))))"

section \<open>Declarations\<close>

datatype ExtractedKind = KInterface | KStruct | KType | KFunction | KMethod | KConst | KVariable

fun kindText :: "ExtractedKind \<Rightarrow> string" where
  "kindText KInterface = ''interface''"
| "kindText KStruct = ''struct''"
| "kindText KType = ''type''"
| "kindText KFunction = ''function''"
| "kindText KMethod = ''method''"
| "kindText KConst = ''const''"
| "kindText KVariable = ''variable''"

record PropertyInfo =
  p_name :: string
  p_type :: string
  p_optional :: bool
  p_readonly :: bool
  p_isMethod :: bool
  p_isCallSignature :: bool
  p_isIndexSignature :: bool
  p_parameters :: "string list option"
  p_returnType :: "string option"

text \<open>
  \<open>PropertyInfo\<close> above is without its optional \<open>docs\<close>, which nothing ever sets.
  \<open>ExtractedType\<close>. The fields \<open>file\<close>, \<open>module\<close> and \<open>value\<close> of the source are
  \<open>sourceFile\<close>, \<open>moduleName\<close> and \<open>literalValue\<close> here; \<open>members\<close>, which nothing ever sets, is
  left out. An optional field is an \<open>option\<close>.
\<close>

record ExtractedType =
  name :: string
  kind :: ExtractedKind
  exported :: bool
  sourceFile :: string
  moduleName :: string
  signature :: string
  fullSignature :: "string option"
  properties :: "PropertyInfo list option"
  methods :: "PropertyInfo list option"
  docs :: "string option"
  literalValue :: "string option"
  lineNumber :: "nat option"

definition orUndefined :: "string \<Rightarrow> string option" where
  \<comment> \<open>\<open>s || undefined\<close>\<close>
  "orUndefined s = (if s = [] then None else Some s)"

definition orElse :: "string option \<Rightarrow> string \<Rightarrow> string" where
  \<comment> \<open>\<open>a || b\<close> for an optional string \<open>a\<close>: \<open>undefined\<close> and the empty string are falsy\<close>
  "orElse a b = (case a of None \<Rightarrow> b | Some s \<Rightarrow> if s = [] then b else s)"

section \<open>Block capture\<close>

text \<open>
  \<open>captureBracedBlock\<close> and \<open>captureParenBlock\<close> are the same code up to the pair of
  delimiters. \<open>balanceLine\<close> is the loop over the characters of one line, \<open>captureLoop\<close> the
  loop over the lines; the result is the text and \<open>endLine\<close>.
\<close>

fun balanceLine :: "char \<Rightarrow> char \<Rightarrow> string \<Rightarrow> int \<times> bool \<Rightarrow> int \<times> bool" where
  "balanceLine opn cls [] st = st"
| "balanceLine opn cls (c # cs) (balance, started) =
     balanceLine opn cls cs
       (if c = opn then (balance + 1, True)
        else if c = cls then (balance - 1, started)
        else (balance, started))"

function captureLoop :: "char \<Rightarrow> char \<Rightarrow> string list \<Rightarrow> nat \<Rightarrow> int \<Rightarrow> bool \<Rightarrow> string list
                          \<Rightarrow> string \<times> int" where
  "captureLoop opn cls lines index balance started chunk =
     (if index < length lines then
        (let line = lines ! index;
             chunk' = chunk @ [line];
             st = balanceLine opn cls line (balance, started)
         in if snd st \<and> fst st = 0 then (join [CHR 0x0A] chunk', int index)
            else captureLoop opn cls lines (index + 1) (fst st) (snd st) chunk')
      else (join [CHR 0x0A] chunk, int (length lines) - 1))"
  by pat_completeness auto
termination
  by (relation "measure (\<lambda>(opn, cls, lines, index, balance, started, chunk). length lines - index)")
     auto

declare captureLoop.simps [simp del]

definition captureBracedBlock :: "string list \<Rightarrow> nat \<Rightarrow> string \<times> int" where
  "captureBracedBlock lines startLine =
     captureLoop (CHR ''{'') (CHR ''}'') lines startLine 0 False []"

definition captureParenBlock :: "string list \<Rightarrow> nat \<Rightarrow> string \<times> int" where
  "captureParenBlock lines startLine =
     captureLoop (CHR ''('') (CHR '')'') lines startLine 0 False []"

text \<open>\<open>captureFunctionSignature\<close>: both tests of the character loop are plain \<open>if\<close>s.\<close>

fun parenBalanceLine :: "string \<Rightarrow> int \<Rightarrow> int" where
  "parenBalanceLine [] parenBalance = parenBalance"
| "parenBalanceLine (c # cs) parenBalance =
     parenBalanceLine cs
       (let b = (if c = CHR ''('' then parenBalance + 1 else parenBalance)
        in if c = CHR '')'' then b - 1 else b)"

function signatureLoop :: "string list \<Rightarrow> nat \<Rightarrow> nat \<Rightarrow> int \<Rightarrow> string list \<Rightarrow> string" where
  "signatureLoop lines startLine index parenBalance chunk =
     (if index < length lines then
        (let line = lines ! index;
             chunk' = chunk @ [trim line];
             parenBalance' = parenBalanceLine line parenBalance
         in if includesStr line ''{'' then join '' '' chunk'
            else if parenBalance' \<le> 0 \<and> endsWith (trim line) '')'' then join '' '' chunk'
            else if int index - int startLine > 12 then join '' '' chunk'
            else signatureLoop lines startLine (index + 1) parenBalance' chunk')
      else join '' '' chunk)"
  by pat_completeness auto
termination
  by (relation "measure (\<lambda>(lines, startLine, index, parenBalance, chunk). length lines - index)")
     auto

declare signatureLoop.simps [simp del]

definition captureFunctionSignature :: "string list \<Rightarrow> nat \<Rightarrow> string" where
  "captureFunctionSignature lines startLine = signatureLoop lines startLine startLine 0 []"

section \<open>The patterns of the declaration scanner\<close>

definition exportedNameRx :: "rx list" where
  \<comment> \<open>\<open>[A-Z]\w*\<close>\<close>
  "exportedNameRx = [Cls is_upper, Star is_word]"

definition identifierRx :: "rx list" where
  \<comment> \<open>\<open>[A-Za-z_]\w*\<close>\<close>
  "identifierRx = [Cls is_ident_start, Star is_word]"

definition interfaceRx :: "rx list" where
  \<comment> \<open>\<open>/^type\s+([A-Z]\w*)\s+interface\s*\{/\<close>\<close>
  "interfaceRx = lits ''type'' @ [Plus is_space, Cap 1 exportedNameRx, Plus is_space]
       @ lits ''interface'' @ [Star is_space, Lit (CHR ''{'')]"

definition structRx :: "rx list" where
  \<comment> \<open>\<open>/^type\s+([A-Z]\w*)\s+struct\s*\{/\<close>\<close>
  "structRx = lits ''type'' @ [Plus is_space, Cap 1 exportedNameRx, Plus is_space]
       @ lits ''struct'' @ [Star is_space, Lit (CHR ''{'')]"

definition typeRx :: "rx list" where
  \<comment> \<open>\<open>/^type\s+([A-Z]\w*)\s*(=)?\s*(.+)$/\<close>\<close>
  "typeRx = lits ''type'' @ [Plus is_space, Cap 1 exportedNameRx, Star is_space,
       Opt [Cap 2 [Lit (CHR ''='')]], Star is_space, Cap 3 [Plus any_char], Eos]"

definition methodRx :: "rx list" where
  \<comment> \<open>\<open>/^func\s*\(([^)]+)\)\s*([A-Z]\w*)\s*\(/\<close>\<close>
  "methodRx = lits ''func'' @ [Star is_space, Lit (CHR ''(''), Cap 1 [Plus (\<lambda>c. c \<noteq> CHR '')'')],
       Lit (CHR '')''), Star is_space, Cap 2 exportedNameRx, Star is_space, Lit (CHR ''('')]"

definition functionRx :: "rx list" where
  \<comment> \<open>\<open>/^func\s+([A-Z]\w*)\s*\(/\<close>\<close>
  "functionRx = lits ''func'' @ [Plus is_space, Cap 1 exportedNameRx, Star is_space, Lit (CHR ''('')]"

definition constBlockRx :: "rx list" where
  \<comment> \<open>\<open>/^const\s*\(/\<close>\<close>
  "constBlockRx = lits ''const'' @ [Star is_space, Lit (CHR ''('')]"

definition varBlockRx :: "rx list" where
  \<comment> \<open>\<open>/^var\s*\(/\<close>\<close>
  "varBlockRx = lits ''var'' @ [Star is_space, Lit (CHR ''('')]"

definition constSingleRx :: "rx list" where
  \<comment> \<open>\<open>/^const\s+([A-Z]\w*)\b(.*)$/\<close>\<close>
  "constSingleRx = lits ''const'' @ [Plus is_space, Cap 1 exportedNameRx, WordB, Cap 2 [Star any_char], Eos]"

definition varSingleRx :: "rx list" where
  \<comment> \<open>\<open>/^var\s+([A-Z]\w*)\b(.*)$/\<close>\<close>
  "varSingleRx = lits ''var'' @ [Plus is_space, Cap 1 exportedNameRx, WordB, Cap 2 [Star any_char], Eos]"

definition upperStartRx :: "rx list" where
  \<comment> \<open>\<open>/^[A-Z]/\<close>\<close>
  "upperStartRx = [Cls is_upper]"

definition interfaceMethodRx :: "rx list" where
  \<comment> \<open>\<open>/^([A-Za-z_]\w*)\s*\((.*)\)\s*(.*)$/\<close>\<close>
  "interfaceMethodRx = [Cap 1 identifierRx, Star is_space, Lit (CHR ''(''), Cap 2 [Star any_char],
       Lit (CHR '')''), Star is_space, Cap 3 [Star any_char], Eos]"

definition lineCommentRx :: "rx list" where
  \<comment> \<open>\<open>/\s*\/\/.*$/\<close>, not anchored at the start\<close>
  "lineCommentRx = [Star is_space, Lit (CHR ''/''), Lit (CHR ''/''), Star any_char, Eos]"

definition structFieldRx :: "rx list" where
  \<comment> \<open>\<open>/^([A-Za-z_]\w*)\s+(.+)$/\<close>\<close>
  "structFieldRx = [Cap 1 identifierRx, Plus is_space, Cap 2 [Plus any_char], Eos]"

definition blockMemberRx :: "rx list" where
  \<comment> \<open>\<open>/^([A-Za-z_]\w*)\b(.*)$/\<close>\<close>
  "blockMemberRx = [Cap 1 identifierRx, WordB, Cap 2 [Star any_char], Eos]"

section \<open>Member parsers\<close>

definition sliceInner :: "'a list \<Rightarrow> 'a list" where
  \<comment> \<open>\<open>xs.slice(1, -1)\<close>\<close>
  "sliceInner xs = butlast (tl xs)"

definition parseMethodLine :: "string \<Rightarrow> PropertyInfo option" where
  \<comment> \<open>the body of the loop of \<open>parseInterfaceMethods\<close>: \<open>None\<close> is \<open>continue\<close>\<close>
  "parseMethodLine line =
     (let trimmed = trim line
      in if trimmed = [] \<or> startsWith trimmed ''//'' then None
         else (case matchStart interfaceMethodRx trimmed of
                 None \<Rightarrow> None
               | Some (methodMatch, rest) \<Rightarrow>
                   Some \<lparr> p_name = group methodMatch 1,
                          p_type = (if group methodMatch 3 = [] then ''void'' else group methodMatch 3),
                          p_optional = False,
                          p_readonly = False,
                          p_isMethod = True,
                          p_isCallSignature = False,
                          p_isIndexSignature = False,
                          p_parameters =
                            Some (filter (\<lambda>part. part \<noteq> [])
                                    (map trim (splitChar (CHR '','') (group methodMatch 2)))),
                          p_returnType =
                            Some (if group methodMatch 3 = [] then ''void'' else group methodMatch 3) \<rparr>))"

definition parseInterfaceMethods :: "string \<Rightarrow> PropertyInfo list" where
  "parseInterfaceMethods blockText =
     List.map_filter parseMethodLine (sliceInner (splitLines blockText))"

definition parseFieldLine :: "string \<Rightarrow> PropertyInfo option" where
  "parseFieldLine line =
     (let cleaned = trim (removeFirst lineCommentRx line)
      in if cleaned = [] then None
         else (case matchStart structFieldRx cleaned of
                 None \<Rightarrow> None
               | Some (fieldMatch, rest) \<Rightarrow>
                   Some \<lparr> p_name = group fieldMatch 1,
                          p_type = trim (group fieldMatch 2),
                          p_optional = False,
                          p_readonly = False,
                          p_isMethod = False,
                          p_isCallSignature = False,
                          p_isIndexSignature = False,
                          p_parameters = None,
                          p_returnType = None \<rparr>))"

definition parseStructFields :: "string \<Rightarrow> PropertyInfo list" where
  "parseStructFields blockText =
     List.map_filter parseFieldLine (sliceInner (splitLines blockText))"

record BlockMember =
  m_name :: string
  m_signature :: string
  m_value :: "string option"
  m_lineNumber :: nat

definition parseMemberLine :: "string list \<Rightarrow> nat \<Rightarrow> BlockMember option" where
  \<comment> \<open>the body of the loop of \<open>parseConstVarBlockMembers\<close> at \<open>index\<close>\<close>
  "parseMemberLine lines index =
     (let raw = lines ! index;
          line = trim (removeFirst lineCommentRx raw)
      in if line = [] then None
         else (case matchStart blockMemberRx line of
                 None \<Rightarrow> None
               | Some (match, rest) \<Rightarrow>
                   Some \<lparr> m_name = group match 1,
                          m_signature = line,
                          m_value = orUndefined (trim (group match 2)),
                          m_lineNumber = index + 1 \<rparr>))"

definition parseConstVarBlockMembers :: "string \<Rightarrow> BlockMember list" where
  \<comment> \<open>\<open>for (let index = 1; index < lines.length - 1; index++)\<close>\<close>
  "parseConstVarBlockMembers blockText =
     (let lines = splitLines blockText
      in List.map_filter (parseMemberLine lines) [1 ..< length lines - 1])"

definition firstLine :: "string \<Rightarrow> string" where
  \<comment> \<open>\<open>split\<close> returns at least one piece\<close>
  "firstLine text = (case splitLines text of [] \<Rightarrow> [] | l # _ \<Rightarrow> trim l)"

definition getModuleName :: "string \<Rightarrow> string" where
  \<comment> \<open>of the path relative to the repository root, with \<open>/\<close> between its parts\<close>
  "getModuleName relative =
     (let parts = splitChar (CHR ''/'') relative
      in if length parts > 1 then parts ! 0 else ''root'')"

section \<open>The declaration scanner\<close>

text \<open>
  One definition per branch of the loop body of \<open>extractFromContent\<close>. Each gives the
  declarations pushed to \<open>results\<close> and the value of \<open>index\<close> at its \<open>continue\<close>.
\<close>

definition onInterface :: "string \<Rightarrow> string \<Rightarrow> string list \<Rightarrow> nat \<Rightarrow> string option
                            \<Rightarrow> (nat \<times> string) list \<Rightarrow> ExtractedType list \<times> int" where
  "onInterface relativeFile modName lines index dcs interfaceMatch =
     (let block = captureBracedBlock lines index;
          meths = parseInterfaceMethods (fst block)
      in ([\<lparr> name = group interfaceMatch 1,
              kind = KInterface,
              exported = True,
              sourceFile = relativeFile,
              moduleName = modName,
              signature = firstLine (fst block),
              fullSignature = Some (fst block),
              properties = None,
              methods = Some meths,
              docs = dcs,
              literalValue = None,
              lineNumber = Some (index + 1) \<rparr>],
          snd block))"

definition onStruct :: "string \<Rightarrow> string \<Rightarrow> string list \<Rightarrow> nat \<Rightarrow> string option
                         \<Rightarrow> (nat \<times> string) list \<Rightarrow> ExtractedType list \<times> int" where
  "onStruct relativeFile modName lines index dcs structMatch =
     (let block = captureBracedBlock lines index;
          props = parseStructFields (fst block)
      in ([\<lparr> name = group structMatch 1,
              kind = KStruct,
              exported = True,
              sourceFile = relativeFile,
              moduleName = modName,
              signature = firstLine (fst block),
              fullSignature = Some (fst block),
              properties = Some props,
              methods = None,
              docs = dcs,
              literalValue = None,
              lineNumber = Some (index + 1) \<rparr>],
          snd block))"

definition onSimple :: "ExtractedKind \<Rightarrow> string \<Rightarrow> string \<Rightarrow> nat \<Rightarrow> string option
                         \<Rightarrow> string \<Rightarrow> string \<Rightarrow> string option \<Rightarrow> ExtractedType list \<times> int" where
  \<comment> \<open>the branches that push one declaration and leave \<open>index\<close> alone\<close>
  "onSimple k relativeFile modName index dcs nm sig v =
     ([\<lparr> name = nm,
          kind = k,
          exported = True,
          sourceFile = relativeFile,
          moduleName = modName,
          signature = sig,
          fullSignature = None,
          properties = None,
          methods = None,
          docs = dcs,
          literalValue = v,
          lineNumber = Some (index + 1) \<rparr>],
      int index)"

definition memberDecl :: "ExtractedKind \<Rightarrow> string \<Rightarrow> string \<Rightarrow> string option \<Rightarrow> BlockMember
                           \<Rightarrow> ExtractedType" where
  "memberDecl k relativeFile modName dcs member =
     \<lparr> name = m_name member,
       kind = k,
       exported = True,
       sourceFile = relativeFile,
       moduleName = modName,
       signature = m_signature member,
       fullSignature = None,
       properties = None,
       methods = None,
       docs = dcs,
       literalValue = m_value member,
       lineNumber = Some (m_lineNumber member) \<rparr>"

definition onBlock :: "ExtractedKind \<Rightarrow> string \<Rightarrow> string \<Rightarrow> string list \<Rightarrow> nat \<Rightarrow> string option
                        \<Rightarrow> ExtractedType list \<times> int" where
  \<comment> \<open>a grouped \<open>const (\<close> or \<open>var (\<close> block\<close>
  "onBlock k relativeFile modName lines index dcs =
     (let block = captureParenBlock lines index;
          members = parseConstVarBlockMembers (fst block)
      in (map (memberDecl k relativeFile modName dcs)
            (filter (\<lambda>member. testStart upperStartRx (m_name member)) members),
          snd block))"

definition scanLine :: "string \<Rightarrow> string \<Rightarrow> string list \<Rightarrow> nat \<Rightarrow> string option
                         \<Rightarrow> ExtractedType list \<times> int" where
  "scanLine relativeFile modName lines index dcs =
     (let line = trim (lines ! index)
      in case matchStart interfaceRx line of
           Some (interfaceMatch, _) \<Rightarrow> onInterface relativeFile modName lines index dcs interfaceMatch
         | None \<Rightarrow>
      (case matchStart structRx line of
           Some (structMatch, _) \<Rightarrow> onStruct relativeFile modName lines index dcs structMatch
         | None \<Rightarrow>
      (case (if includesStr line ''interface{'' \<or> includesStr line ''struct{'' then None
             else matchStart typeRx line) of
           Some (typeMatch, _) \<Rightarrow>
             onSimple KType relativeFile modName index dcs (group typeMatch 1) line
               (Some (trim (group typeMatch 3)))
         | None \<Rightarrow>
      (case matchStart methodRx line of
           Some (methodMatch, _) \<Rightarrow>
             onSimple KMethod relativeFile modName index dcs (group methodMatch 2)
               (captureFunctionSignature lines index) None
         | None \<Rightarrow>
      (case matchStart functionRx line of
           Some (functionMatch, _) \<Rightarrow>
             onSimple KFunction relativeFile modName index dcs (group functionMatch 1)
               (captureFunctionSignature lines index) None
         | None \<Rightarrow>
      if testStart constBlockRx line then onBlock KConst relativeFile modName lines index dcs
      else if testStart varBlockRx line then onBlock KVariable relativeFile modName lines index dcs
      else
      (case matchStart constSingleRx line of
           Some (constSingle, _) \<Rightarrow>
             onSimple KConst relativeFile modName index dcs (group constSingle 1) line
               (orUndefined (trim (group constSingle 2)))
         | None \<Rightarrow>
      (case matchStart varSingleRx line of
           Some (varSingle, _) \<Rightarrow>
             onSimple KVariable relativeFile modName index dcs (group varSingle 1) line
               (orUndefined (trim (group varSingle 2)))
         | None \<Rightarrow> ([], int index))))))))"

text \<open>
  One turn of the loop: a blank line pushes nothing; otherwise the documentation is read
  first and the line is classified. The loop then goes on at \<open>index + 1\<close>.
\<close>

definition scanStep :: "string \<Rightarrow> string \<Rightarrow> string list \<Rightarrow> nat \<Rightarrow> error + ExtractedType list \<times> int" where
  "scanStep relativeFile modName lines index =
     (if trim (lines ! index) = [] then Inr ([], int index)
      else (case extractDocAbove lines index of
              Inl e \<Rightarrow> Inl e
            | Inr dcs \<Rightarrow> Inr (scanLine relativeFile modName lines index dcs)))"

lemma captureLoop_endLine:
  "index < length lines \<Longrightarrow> int index \<le> snd (captureLoop opn cls lines index balance started chunk)"
proof (induction opn cls lines index balance started chunk rule: captureLoop.induct)
  case (1 opn cls lines index balance started chunk)
  show ?case
  proof (cases "snd (balanceLine opn cls (lines ! index) (balance, started))
                \<and> fst (balanceLine opn cls (lines ! index) (balance, started)) = 0")
    case True
    with "1.prems" show ?thesis
      by (subst captureLoop.simps) (simp add: Let_def)
  next
    case False
    show ?thesis
    proof (cases "index + 1 < length lines")
      case True
      with False "1.prems" "1.IH" [OF "1.prems" refl refl refl False True] show ?thesis
        by (subst captureLoop.simps) (simp add: Let_def)
    next
      case stop: False
      with False "1.prems" show ?thesis
        by (subst captureLoop.simps, simp add: Let_def, subst captureLoop.simps, simp)
    qed
  qed
qed

lemma scanLine_index:
  "index < length lines \<Longrightarrow> int index \<le> snd (scanLine relativeFile modName lines index dcs)"
  by (auto simp: scanLine_def onInterface_def onStruct_def onSimple_def onBlock_def Let_def
        captureBracedBlock_def captureParenBlock_def captureLoop_endLine
        split: option.splits)

lemma scanStep_index:
  "index < length lines \<Longrightarrow> scanStep relativeFile modName lines index = Inr (found, index')
     \<Longrightarrow> int index \<le> index'"
proof -
  assume lt: "index < length lines" and st: "scanStep relativeFile modName lines index = Inr (found, index')"
  show ?thesis
  proof (cases "trim (lines ! index) = []")
    case True
    with st show ?thesis by (simp add: scanStep_def)
  next
    case False
    with st obtain dcs where "scanLine relativeFile modName lines index dcs = (found, index')"
      by (auto simp: scanStep_def split: sum.splits)
    with scanLine_index [OF lt, of relativeFile modName dcs] show ?thesis by simp
  qed
qed

function extractLoop :: "string \<Rightarrow> string \<Rightarrow> string list \<Rightarrow> nat \<Rightarrow> ExtractedType list
                           \<Rightarrow> error + ExtractedType list" where
  "extractLoop relativeFile modName lines index results =
     (if index < length lines then
        (case scanStep relativeFile modName lines index of
           Inl e \<Rightarrow> Inl e
         | Inr (found, index') \<Rightarrow>
             extractLoop relativeFile modName lines (nat (index' + 1)) (results @ found))
      else Inr results)"
  by pat_completeness auto
termination
proof (relation "measure (\<lambda>(relativeFile, modName, lines, index, results). length lines - index)")
  show "wf (measure (\<lambda>(relativeFile, modName, lines, index, results). length lines - index))"
    by simp
next
  fix relativeFile modName :: string and lines :: "string list" and index :: nat
    and results :: "ExtractedType list" and x2 :: "ExtractedType list \<times> int"
    and found :: "ExtractedType list" and index' :: int
  assume "index < length lines" "scanStep relativeFile modName lines index = Inr x2"
    "(found, index') = x2"
  then have "int index \<le> index'"
    using scanStep_index [of index lines relativeFile modName found index'] by simp
  with \<open>index < length lines\<close>
  show "((relativeFile, modName, lines, nat (index' + 1), results @ found),
         (relativeFile, modName, lines, index, results))
        \<in> measure (\<lambda>(relativeFile, modName, lines, index, results). length lines - index)"
    by simp
qed

declare extractLoop.simps [simp del]

definition extractFromContent :: "string \<Rightarrow> string \<Rightarrow> error + ExtractedType list" where
  \<comment> \<open>the file is given by its path relative to the repository root\<close>
  "extractFromContent relativeFile content =
     extractLoop relativeFile (getModuleName relativeFile) (splitLines content) 0 []"

section \<open>The index and its queries\<close>

text \<open>
  The queries read the cached result of \<open>extractAllTypes\<close>, here the argument \<open>allTypes\<close>.
  \<open>String.prototype.localeCompare\<close> belongs to the runtime and its order to the locale:
  it is the argument \<open>lc\<close>, negative, zero or positive as the first string sorts before, with
  or after the second.
\<close>

definition searchType :: "ExtractedType list \<Rightarrow> string \<Rightarrow> ExtractedType option" where
  "searchType allTypes nm =
     (let lowerName = toLowerCase nm
      in case List.find (\<lambda>t. name t = nm) allTypes of
           Some exact \<Rightarrow> Some exact
         | None \<Rightarrow> List.find (\<lambda>t. toLowerCase (name t) = lowerName) allTypes)"

record SearchFilters =
  f_module :: "string option"
  f_kind :: "ExtractedKind option"

record RankedTypeResult =
  r_type :: ExtractedType
  r_score :: int
  r_matchedIn :: "string list"

definition hit :: "bool \<Rightarrow> int \<Rightarrow> string \<Rightarrow> int \<times> string list \<Rightarrow> int \<times> string list" where
  \<comment> \<open>\<open>if (cond) { score += w; matchedIn.push(label) }\<close>\<close>
  "hit cond w label st = (if cond then (fst st + w, snd st @ [label]) else st)"

definition scoreTerm :: "ExtractedType \<Rightarrow> int \<times> string list \<Rightarrow> string \<Rightarrow> int \<times> string list" where
  \<comment> \<open>the body of \<open>for (const term of terms)\<close> on \<open>(score, matchedIn)\<close>\<close>
  "scoreTerm t st term =
     (let nm = toLowerCase (name t);
          sig = toLowerCase (signature t);
          dcs = toLowerCase (orElse (docs t) []);
          fl = toLowerCase (sourceFile t);
          md = toLowerCase (moduleName t);
          kd = toLowerCase (kindText (kind t))
      in if nm = term then (fst st + 25, snd st @ [''name-exact''])
         else hit (includesStr kd term) 4 ''kind''
               (hit (includesStr md term) 5 ''module''
                 (hit (includesStr fl term) 4 ''file''
                   (hit (includesStr dcs term) 5 ''docs''
                     (hit (includesStr sig term) 6 ''signature''
                       (hit (includesStr nm term) 12 ''name'' st))))))"

definition queryTerms :: "string \<Rightarrow> string list" where
  "queryTerms query = filter (\<lambda>term. term \<noteq> []) (splitSpaces (trim (toLowerCase query)))"

definition applyFilters :: "SearchFilters option \<Rightarrow> ExtractedType list \<Rightarrow> ExtractedType list" where
  "applyFilters filters allTypes =
     (let types1 =
            (case filters of
               None \<Rightarrow> allTypes
             | Some f \<Rightarrow>
                 (case f_module f of
                    None \<Rightarrow> allTypes
                  | Some m \<Rightarrow>
                      if m = [] then allTypes
                      else filter (\<lambda>t. toLowerCase (moduleName t) = toLowerCase m) allTypes))
      in case filters of
           None \<Rightarrow> types1
         | Some f \<Rightarrow>
             (case f_kind f of
                None \<Rightarrow> types1
              | Some k \<Rightarrow> filter (\<lambda>t. kind t = k) types1))"

definition rankOne :: "string list \<Rightarrow> ExtractedType \<Rightarrow> RankedTypeResult option" where
  \<comment> \<open>the body of \<open>for (const type of types)\<close>: \<open>None\<close> when nothing is pushed\<close>
  "rankOne terms t =
     (let st = foldl (scoreTerm t) (0, []) terms
      in if length terms = 0 \<or> fst st > 0
         then Some \<lparr> r_type = t, r_score = fst st, r_matchedIn = dedupe (snd st) \<rparr>
         else None)"

definition rankCompare :: "(string \<Rightarrow> string \<Rightarrow> int) \<Rightarrow> RankedTypeResult \<Rightarrow> RankedTypeResult \<Rightarrow> int" where
  "rankCompare lc left right =
     (if r_score right \<noteq> r_score left then r_score right - r_score left
      else lc (name (r_type left)) (name (r_type right)))"

definition searchByContext :: "(string \<Rightarrow> string \<Rightarrow> int) \<Rightarrow> ExtractedType list \<Rightarrow> string \<Rightarrow> int
                                \<Rightarrow> SearchFilters option \<Rightarrow> RankedTypeResult list" where
  "searchByContext lc allTypes query limit filters =
     (let terms = queryTerms query;
          types = applyFilters filters allTypes;
          ranked = List.map_filter (rankOne terms) types
      in take (nat (max 1 limit)) (sortBy (rankCompare lc) ranked))"

definition getTypesFromModule :: "ExtractedType list \<Rightarrow> string \<Rightarrow> ExtractedType list" where
  "getTypesFromModule allTypes modName =
     filter (\<lambda>t. toLowerCase (moduleName t) = toLowerCase modName) allTypes"

definition highlightScore :: "ExtractedType \<Rightarrow> int" where
  "highlightScore t =
     (if orElse (docs t) [] \<noteq> [] then 2 else 0)
     + (if kind t = KFunction \<or> kind t = KMethod then 4 else 0)
     + (if kind t = KInterface \<or> kind t = KStruct then 3 else 0)
     + (if length (name t) \<le> 24 then 1 else 0)"

definition highlightCompare :: "(string \<Rightarrow> string \<Rightarrow> int) \<Rightarrow> ExtractedType \<Rightarrow> ExtractedType \<Rightarrow> int" where
  "highlightCompare lc left right =
     (let leftScore = highlightScore left; rightScore = highlightScore right
      in if rightScore \<noteq> leftScore then rightScore - leftScore
         else lc (name left) (name right))"

record ModuleSummary =
  s_module :: string
  s_total :: nat
  s_byKind :: "ExtractedKind \<Rightarrow> nat"
  s_files :: "string list"
  s_highlights :: "ExtractedType list"

definition summarizeModule :: "(string \<Rightarrow> string \<Rightarrow> int) \<Rightarrow> ExtractedType list \<Rightarrow> string \<Rightarrow> int
                                \<Rightarrow> ModuleSummary" where
  "summarizeModule lc allTypes modName highlightCount =
     (let types = getTypesFromModule allTypes modName;
          byKind = foldl (\<lambda>counts t. counts (kind t := counts (kind t) + 1)) (\<lambda>k. 0) types;
          files = sortBy lc (dedupe (map sourceFile types));
          highlights = take (nat (max 1 highlightCount)) (sortBy (highlightCompare lc) types)
      in \<lparr> s_module = modName,
           s_total = length types,
           s_byKind = byKind,
           s_files = files,
           s_highlights = highlights \<rparr>)"

section \<open>Relationships\<close>

definition embeddedRx :: "rx list" where
  \<comment> \<open>\<open>/^[A-Z][A-Za-z0-9_]*$/\<close>\<close>
  "embeddedRx = [Cls is_upper, Star is_word, Eos]"

record HierarchyResult =
  h_type :: ExtractedType
  h_parents :: "string list"
  h_children :: "string list"

definition embeddedLines :: "ExtractedType \<Rightarrow> string list" where
  \<comment> \<open>what \<open>getTypeHierarchy\<close> pushes to \<open>parents\<close>\<close>
  "embeddedLines target =
     (let fullSig = toLowerCase (orElse (fullSignature target) (signature target))
      in if kind target = KInterface \<or> kind target = KStruct \<or> kind target = KType
         then filter (testStart embeddedRx) (map trim (splitLines fullSig))
         else [])"

definition childNames :: "ExtractedType list \<Rightarrow> ExtractedType \<Rightarrow> string list" where
  \<comment> \<open>what \<open>getTypeHierarchy\<close> pushes to \<open>children\<close>\<close>
  "childNames allTypes target =
     map name
       (filter (\<lambda>candidate. name candidate \<noteq> name target
                  \<and> includesStr (toLowerCase (orElse (fullSignature candidate) (signature candidate)))
                       (toLowerCase (name target)))
          allTypes)"

definition getTypeHierarchy :: "(string \<Rightarrow> string \<Rightarrow> int) \<Rightarrow> ExtractedType list \<Rightarrow> string
                                 \<Rightarrow> HierarchyResult option" where
  "getTypeHierarchy lc allTypes nm =
     (case searchType allTypes nm of
        None \<Rightarrow> None
      | Some target \<Rightarrow>
          Some \<lparr> h_type = target,
                 h_parents = sortBy lc (dedupe (embeddedLines target)),
                 h_children = sortBy lc (dedupe (childNames allTypes target)) \<rparr>)"

section \<open>Dependencies\<close>

definition importSingleRx :: "rx list" where
  \<comment> \<open>\<open>/^import\s+"([^"]+)"/\<close>\<close>
  "importSingleRx = lits ''import'' @ [Plus is_space, Lit (CHR 0x22),
       Cap 1 [Plus (\<lambda>c. c \<noteq> CHR 0x22)], Lit (CHR 0x22)]"

definition importBlockRx :: "rx list" where
  \<comment> \<open>\<open>/^import\s*\(/\<close>\<close>
  "importBlockRx = lits ''import'' @ [Star is_space, Lit (CHR ''('')]"

definition importItemRx :: "rx list" where
  \<comment> \<open>\<open>/^(?:[A-Za-z_]\w*\s+)?"([^"]+)"/\<close>\<close>
  "importItemRx = [Opt (identifierRx @ [Plus is_space]), Lit (CHR 0x22),
       Cap 1 [Plus (\<lambda>c. c \<noteq> CHR 0x22)], Lit (CHR 0x22)]"

text \<open>
  The inner loop of \<open>extractImports\<close>, over the lines of an import block: it returns the
  imports and, when it met the closing line, the index of that line.
\<close>

function importItems :: "string list \<Rightarrow> nat \<Rightarrow> string list \<Rightarrow> string list \<times> nat option" where
  "importItems lines inner imports =
     (if inner < length lines then
        (let item = trim (lines ! inner)
         in if item = '')'' then (imports, Some inner)
            else (case matchStart importItemRx item of
                    Some (blockItem, _) \<Rightarrow> importItems lines (inner + 1) (imports @ [group blockItem 1])
                  | None \<Rightarrow> importItems lines (inner + 1) imports))
      else (imports, None))"
  by pat_completeness auto
termination
  by (relation "measure (\<lambda>(lines, inner, imports). length lines - inner)") auto

declare importItems.simps [simp del]

lemma importItems_closing:
  "importItems lines inner imports = (imports', Some closing) \<Longrightarrow> inner \<le> closing"
proof (induction lines inner "imports" rule: importItems.induct)
  case (1 lines inner imps)
  from "1.prems" have lt: "inner < length lines"
    by (subst (asm) importItems.simps) (simp split: if_splits)
  show ?case
  proof (cases "trim (lines ! inner) = '')''")
    case True
    with lt "1.prems" show ?thesis
      by (subst (asm) importItems.simps) simp
  next
    case False
    show ?thesis
    proof (cases "matchStart importItemRx (trim (lines ! inner))")
      case None
      with False lt "1.prems"
      have "importItems lines (inner + 1) imps = (imports', Some closing)"
        by (subst (asm) importItems.simps) simp
      with "1.IH"(1) [OF lt refl False None] show ?thesis by simp
    next
      case (Some m)
      obtain blockItem rest where m: "m = (blockItem, rest)" by (cases m)
      with Some False lt "1.prems"
      have "importItems lines (inner + 1) (imps @ [group blockItem 1]) = (imports', Some closing)"
        by (subst (asm) importItems.simps) simp
      with "1.IH"(2) [OF lt refl False Some m [symmetric]] show ?thesis by simp
    qed
  qed
qed

function importLoop :: "string list \<Rightarrow> nat \<Rightarrow> string list \<Rightarrow> string list" where
  "importLoop lines index imports =
     (if index < length lines then
        (let line = trim (lines ! index)
         in case matchStart importSingleRx line of
              Some (single, _) \<Rightarrow> importLoop lines (index + 1) (imports @ [group single 1])
            | None \<Rightarrow>
                if testStart importBlockRx line then
                  (case importItems lines (index + 1) imports of
                     (imports', Some closing) \<Rightarrow> importLoop lines (closing + 1) imports'
                   | (imports', None) \<Rightarrow> importLoop lines (index + 1) imports')
                else importLoop lines (index + 1) imports)
      else imports)"
  by pat_completeness auto
termination
  by (relation "measure (\<lambda>(lines, index, imports). length lines - index)")
     (auto dest!: importItems_closing [OF sym])

declare importLoop.simps [simp del]

definition extractImports :: "string \<Rightarrow> string list" where
  "extractImports content = importLoop (splitLines content) 0 []"

definition setAdd :: "'a \<Rightarrow> 'a list \<Rightarrow> 'a list" where
  \<comment> \<open>\<open>Set.prototype.add\<close>: a set keeps its elements in the order they came in\<close>
  "setAdd x xs = (if x \<in> set xs then xs else xs @ [x])"

record DependencyInfo =
  d_module :: string
  d_imports :: "string list"
  d_exports :: "string list"
  d_reExportsFrom :: "string list"

text \<open>
  \<open>byModule\<close> is a \<open>Map\<close>, which keeps its keys in insertion order: an association list,
  each module with its set of imports and its set of exports. A file is given by its path
  relative to the repository root and its content.
\<close>

definition addFileImports :: "(string \<times> string list \<times> string list) list \<Rightarrow> string \<times> string
                               \<Rightarrow> (string \<times> string list \<times> string list) list" where
  "addFileImports byModule f =
     (let modName = getModuleName (fst f);
          content = snd f;
          byModule1 = (if map_of byModule modName = None
                       then AList.update modName ([], []) byModule else byModule)
      in case map_of byModule1 modName of
           None \<Rightarrow> byModule1
         | Some entry \<Rightarrow>
             AList.update modName
               (foldl (\<lambda>imps imported. setAdd imported imps) (fst entry) (extractImports content),
                snd entry)
               byModule1)"

definition addExport :: "(string \<times> string list \<times> string list) list \<Rightarrow> ExtractedType
                          \<Rightarrow> (string \<times> string list \<times> string list) list" where
  "addExport byModule t =
     (case map_of byModule (moduleName t) of
        None \<Rightarrow> byModule
      | Some entry \<Rightarrow> AList.update (moduleName t) (fst entry, setAdd (name t) (snd entry)) byModule)"

definition analyzeDependencies :: "(string \<Rightarrow> string \<Rightarrow> int) \<Rightarrow> (string \<times> string) list
                                    \<Rightarrow> ExtractedType list \<Rightarrow> DependencyInfo list" where
  "analyzeDependencies lc files allTypes =
     (let byModule = foldl addExport (foldl addFileImports [] files) allTypes;
          result = map (\<lambda>(module, data).
                          \<lparr> d_module = module,
                            d_imports = sortBy lc (fst data),
                            d_exports = sortBy lc (snd data),
                            d_reExportsFrom = [] \<rparr>) byModule
      in sortBy (\<lambda>left right. lc (d_module left) (d_module right)) result)"

text \<open>
  An instance of \<open>lc\<close> to compute with: the comparison of two strings code unit by code
  unit.
\<close>

fun codeUnitCompare :: "string \<Rightarrow> string \<Rightarrow> int" where
  "codeUnitCompare [] [] = 0"
| "codeUnitCompare [] (b # bs) = - 1"
| "codeUnitCompare (a # as) [] = 1"
| "codeUnitCompare (a # as) (b # bs) =
     (if (of_char a :: nat) < of_char b then - 1
      else if (of_char b :: nat) < of_char a then 1
      else codeUnitCompare as bs)"

text \<open>
  What a comparator has to satisfy for \<open>sort\<close> to have a defined result: it relates any
  two strings, consistently in both directions, and transitively.
\<close>

definition consistentCompare :: "('a \<Rightarrow> 'a \<Rightarrow> int) \<Rightarrow> bool" where
  "consistentCompare cmp =
     ((\<forall>a b. (cmp a b \<le> 0) = (0 \<le> cmp b a))
      \<and> (\<forall>a b c. cmp a b \<le> 0 \<and> cmp b c \<le> 0 \<longrightarrow> cmp a c \<le> 0))"

section \<open>Properties of the documentation walk\<close>

lemma isBlank_not_comment: "isBlankLine raw \<Longrightarrow> \<not> isCommentLine raw"
  by (simp add: isBlankLine_def isCommentLine_def)

lemma docWalk_step_blank:
  "isBlankLine (lines ! cursor) \<Longrightarrow>
     docWalk lines (Suc cursor) acc = (if acc = [] then docWalk lines cursor acc else acc)"
  by (simp add: isBlankLine_def Let_def)

lemma docWalk_step_comment:
  "isCommentLine (lines ! cursor) \<Longrightarrow>
     docWalk lines (Suc cursor) acc = docWalk lines cursor (docText (lines ! cursor) # acc)"
  by (auto simp: isCommentLine_def docText_def Let_def)

lemma docWalk_step_other:
  "\<not> isBlankLine (lines ! cursor) \<Longrightarrow> \<not> isCommentLine (lines ! cursor) \<Longrightarrow>
     docWalk lines (Suc cursor) acc = acc"
  by (auto simp: isBlankLine_def isCommentLine_def Let_def)

declare docWalk.simps(2) [simp del]

lemma docWalk_started:
  "acc \<noteq> [] \<Longrightarrow> n \<le> length lines \<Longrightarrow>
     docWalk lines n acc = map docText (rev (takeWhile isCommentLine (rev (take n lines)))) @ acc"
proof (induction n arbitrary: acc)
  case 0
  then show ?case by simp
next
  case (Suc n)
  then have n: "n < length lines" by simp
  have tk: "rev (take (Suc n) lines) = lines ! n # rev (take n lines)"
    using n by (simp add: take_Suc_conv_app_nth)
  show ?case
  proof (cases "isCommentLine (lines ! n)")
    case True
    have "docWalk lines (Suc n) acc = docWalk lines n (docText (lines ! n) # acc)"
      by (rule docWalk_step_comment [OF True])
    also have "\<dots> = map docText (rev (takeWhile isCommentLine (rev (take n lines))))
                    @ docText (lines ! n) # acc"
      using Suc.IH [of "docText (lines ! n) # acc"] n by simp
    finally show ?thesis using True by (simp add: tk)
  next
    case False
    have "docWalk lines (Suc n) acc = acc"
    proof (cases "isBlankLine (lines ! n)")
      case True
      then show ?thesis using Suc.prems(1) by (simp add: docWalk_step_blank)
    next
      case notBlank: False
      show ?thesis by (rule docWalk_step_other [OF notBlank False])
    qed
    then show ?thesis using False by (simp add: tk)
  qed
qed

lemma docWalk_fresh:
  "n \<le> length lines \<Longrightarrow>
     docWalk lines n [] =
       map docText (rev (takeWhile isCommentLine (dropWhile isBlankLine (rev (take n lines)))))"
proof (induction n)
  case 0
  then show ?case by simp
next
  case (Suc n)
  then have n: "n < length lines" by simp
  have tk: "rev (take (Suc n) lines) = lines ! n # rev (take n lines)"
    using n by (simp add: take_Suc_conv_app_nth)
  show ?case
  proof (cases "isBlankLine (lines ! n)")
    case True
    have "docWalk lines (Suc n) [] = docWalk lines n []"
      using docWalk_step_blank [OF True, of "[]"] by simp
    then show ?thesis using Suc.IH n True by (simp add: tk)
  next
    case notBlank: False
    show ?thesis
    proof (cases "isCommentLine (lines ! n)")
      case True
      have "docWalk lines (Suc n) [] = docWalk lines n [docText (lines ! n)]"
        by (rule docWalk_step_comment [OF True])
      also have "\<dots> = map docText (rev (takeWhile isCommentLine (rev (take n lines))))
                      @ [docText (lines ! n)]"
        using docWalk_started [of "[docText (lines ! n)]" n lines] n by simp
      finally show ?thesis using True notBlank by (simp add: tk)
    next
      case False
      have "docWalk lines (Suc n) [] = []"
        by (rule docWalk_step_other [OF notBlank False])
      then show ?thesis using False notBlank by (simp add: tk)
    qed
  qed
qed

text \<open>
  C5, as the code has it. Walking up from the line above the declaration, the walk skips
  every blank line it meets while no comment line has been collected (any number of them,
  not one), then collects comment lines for as long as it meets comment lines, and stops at
  the first line that is blank or not a comment; the documentation is what it collected,
  in file order, joined by single spaces and trimmed.
\<close>

theorem extractDocAbove_walk:
  "lineIndex \<le> length lines \<Longrightarrow>
     extractDocAbove lines lineIndex =
       Inr (orUndefined (trim (join '' ''
         (map docText
           (rev (takeWhile isCommentLine
                  (dropWhile isBlankLine (rev (take lineIndex lines)))))))))"
  by (simp add: extractDocAbove_def docWalk_fresh orUndefined_def Let_def)

theorem extractDocAbove_walk_witness:
  "(7::nat) \<le> length [''x := 1'', ''// a'', '''', ''// b'', ''/* c */'', '''', '''', ''type T int'']
   \<and> extractDocAbove [''x := 1'', ''// a'', '''', ''// b'', ''/* c */'', '''', '''', ''type T int''] 7
       = Inr (Some ''b c'')"
proof -
  have h: "(7::nat) \<le> length [''x := 1'', ''// a'', '''', ''// b'', ''/* c */'', '''', '''', ''type T int'']"
    by simp
  have e: "Inr (orUndefined (trim (join '' ''
         (map docText
           (rev (takeWhile isCommentLine
                  (dropWhile isBlankLine
                    (rev (take 7 [''x := 1'', ''// a'', '''', ''// b'', ''/* c */'', '''', '''', ''type T int''])))))))))
       = (Inr (Some ''b c'') :: error + string option)"
    by code_simp
  have "extractDocAbove [''x := 1'', ''// a'', '''', ''// b'', ''/* c */'', '''', '''', ''type T int''] 7
       = Inr (Some ''b c'')"
    using extractDocAbove_walk [OF h] e by (rule trans)
  with h show ?thesis by (rule conjI)
qed

text \<open>
  C5 as stated fails: two blank lines stand between the comment and the declaration, and
  the walk still reaches the comment.
\<close>

theorem extractDocAbove_two_blanks:
  "isBlankLine ([''// doc'', '''', '''', ''type Foo int''] ! 2)
   \<and> isBlankLine ([''// doc'', '''', '''', ''type Foo int''] ! 1)
   \<and> extractDocAbove [''// doc'', '''', '''', ''type Foo int''] 3 = Inr (Some ''doc'')"
  by code_simp

section \<open>Properties of the relationship inference\<close>

lemma lower_char_not_upper: "\<not> is_upper (lower_char c)"
proof -
  have lt: "(of_char c :: nat) < 256" by (rule nat_of_char_less_256)
  show ?thesis
  proof (cases "(65 \<le> (of_char c :: nat) \<and> (of_char c :: nat) \<le> 90)
                \<or> (192 \<le> (of_char c :: nat) \<and> (of_char c :: nat) \<le> 222 \<and> (of_char c :: nat) \<noteq> 215)")
    case True
    then have "lower_char c = char_of ((of_char c :: nat) + 32)"
      by (simp add: lower_char_def Let_def)
    moreover have "(of_char (char_of ((of_char c :: nat) + 32)) :: nat) = of_char c + 32"
      using True by (auto simp: of_char_of)
    ultimately show ?thesis using True by (auto simp: is_upper_def)
  next
    case False
    then have "lower_char c = c" by (auto simp: lower_char_def Let_def)
    with False show ?thesis by (auto simp: is_upper_def)
  qed
qed

lemma toLowerCase_no_upper: "c \<in> set (toLowerCase s) \<Longrightarrow> \<not> is_upper c"
  by (auto simp: toLowerCase_def lower_char_not_upper)

lemma splitLinesFrom_chars:
  "l \<in> set (splitLinesFrom cur s) \<Longrightarrow> set l \<subseteq> set cur \<union> set s"
proof (induction s arbitrary: cur l)
  case Nil
  then show ?case by simp
next
  case (Cons c cs)
  show ?case
  proof (cases "c = CHR 0x0A")
    case True
    show ?thesis
    proof (cases cur)
      case Nil
      with True Cons.prems have "l = [] \<or> l \<in> set (splitLinesFrom [] cs)" by simp
      with Cons.IH [of l "[]"] show ?thesis by auto
    next
      case (Cons d ds)
      with True Cons.prems
      have "l = rev ds \<or> l = rev cur \<or> l \<in> set (splitLinesFrom [] cs)"
        by (auto split: if_splits)
      with Cons.IH [of l "[]"] Cons show ?thesis by auto
    qed
  next
    case False
    with Cons.prems have "l \<in> set (splitLinesFrom (c # cur) cs)" by simp
    with Cons.IH [of l "c # cur"] show ?thesis by auto
  qed
qed

lemma splitLines_chars: "l \<in> set (splitLines s) \<Longrightarrow> set l \<subseteq> set s"
  using splitLinesFrom_chars [of l "[]" s] by (simp add: splitLines_def)

lemma trim_chars: "set (trim s) \<subseteq> set s"
proof -
  have "set (trim s) \<subseteq> set (rev (dropWhile is_space s))"
    unfolding trim_def set_rev by (auto dest: set_dropWhileD)
  also have "\<dots> \<subseteq> set s" by (auto dest: set_dropWhileD)
  finally show ?thesis .
qed

lemma embeddedRx_upper: "testStart embeddedRx l \<Longrightarrow> \<exists>c cs. l = c # cs \<and> is_upper c"
  by (cases l) (auto simp: testStart_def matchStart_def embeddedRx_def split: if_splits)

lemma embeddedLines_empty: "embeddedLines target = []"
proof -
  have "\<not> testStart embeddedRx (trim l)"
    if "l \<in> set (splitLines (toLowerCase s))" for l s
  proof
    assume "testStart embeddedRx (trim l)"
    then obtain c cs where "trim l = c # cs" and up: "is_upper c"
      using embeddedRx_upper by blast
    then have "c \<in> set (trim l)" by simp
    then have "c \<in> set (toLowerCase s)"
      using trim_chars [of l] splitLines_chars [OF that] by blast
    with up show False by (simp add: toLowerCase_no_upper)
  qed
  then show ?thesis
    by (auto simp: embeddedLines_def Let_def filter_empty_conv)
qed

text \<open>
  C1. The block is put in lower case before its lines are tested for a capitalised
  identifier, so no line passes the test: whatever the declaration, \<open>parents\<close> is empty.
\<close>

theorem getTypeHierarchy_parents:
  "getTypeHierarchy lc allTypes nm = Some r \<Longrightarrow> h_parents r = []"
  by (auto simp: getTypeHierarchy_def embeddedLines_empty dedupe_def sortBy_def
        split: option.splits)

definition fooStruct :: ExtractedType where
  "fooStruct =
     \<lparr> name = ''Foo'',
       kind = KStruct,
       exported = True,
       sourceFile = ''types/foo.go'',
       moduleName = ''types'',
       signature = ''type Foo struct {'',
       fullSignature = Some ''type Foo struct {\<newline>  Bar\<newline>  X int\<newline>}'',
       properties = Some [],
       methods = None,
       docs = None,
       literalValue = None,
       lineNumber = Some 1 \<rparr>"

theorem getTypeHierarchy_parents_witness:
  "testStart embeddedRx (trim ''  Bar'')
   \<and> map_option h_parents (getTypeHierarchy codeUnitCompare [fooStruct] ''Foo'') = Some []"
proof -
  have a: "testStart embeddedRx (trim ''  Bar'')" by code_simp
  have "getTypeHierarchy codeUnitCompare [fooStruct] ''Foo''
        = Some (the (getTypeHierarchy codeUnitCompare [fooStruct] ''Foo''))"
    by (simp add: getTypeHierarchy_def searchType_def fooStruct_def)
  from getTypeHierarchy_parents [OF this]
  have "map_option h_parents (getTypeHierarchy codeUnitCompare [fooStruct] ''Foo'') = Some []"
    by (simp add: getTypeHierarchy_def searchType_def fooStruct_def)
  with a show ?thesis by (rule conjI)
qed

section \<open>Properties of sorting and of sets kept as lists\<close>

lemma mset_insertBy: "mset (insertBy cmp x xs) = add_mset x (mset xs)"
  by (induction xs) auto

lemma mset_sortBy: "mset (sortBy cmp xs) = mset xs"
  by (induction xs) (auto simp: sortBy_def mset_insertBy)

lemma set_sortBy: "set (sortBy cmp xs) = set xs"
  using mset_sortBy [of cmp xs] by (metis set_mset_mset)

lemma length_sortBy: "length (sortBy cmp xs) = length xs"
  using mset_sortBy [of cmp xs] by (metis size_mset)

lemma distinct_sortBy: "distinct (sortBy cmp xs) = distinct xs"
  using mset_sortBy [of cmp xs] by (metis distinct_count_atmost_1 set_mset_mset)

lemma consistent_flip: "consistentCompare cmp \<Longrightarrow> \<not> cmp x y \<le> 0 \<Longrightarrow> cmp y x \<le> 0"
proof -
  assume c: "consistentCompare cmp" and n: "\<not> cmp x y \<le> 0"
  from c have "(cmp y x \<le> 0) = (0 \<le> cmp x y)" by (simp add: consistentCompare_def)
  with n show ?thesis by simp
qed

lemma consistent_trans:
  "consistentCompare cmp \<Longrightarrow> cmp x y \<le> 0 \<Longrightarrow> cmp y z \<le> 0 \<Longrightarrow> cmp x z \<le> 0"
  unfolding consistentCompare_def by blast


lemma sorted_insertBy:
  assumes c: "consistentCompare cmp"
  shows "sorted_wrt (\<lambda>a b. cmp a b \<le> 0) xs \<Longrightarrow> sorted_wrt (\<lambda>a b. cmp a b \<le> 0) (insertBy cmp x xs)"
proof (induction xs)
  case Nil
  then show ?case by simp
next
  case (Cons y ys)
  show ?case
  proof (cases "cmp x y \<le> 0")
    case True
    have "cmp x z \<le> 0" if "z \<in> set ys" for z
      using consistent_trans [OF c True] Cons.prems that by auto
    with True Cons.prems show ?thesis by auto
  next
    case False
    have "cmp y x \<le> 0" by (rule consistent_flip [OF c False])
    with False Cons show ?thesis
      by (auto simp: set_mset_mset [symmetric] mset_insertBy simp del: set_mset_mset)
  qed
qed

lemma sorted_sortBy:
  "consistentCompare cmp \<Longrightarrow> sorted_wrt (\<lambda>a b. cmp a b \<le> 0) (sortBy cmp xs)"
  by (induction xs) (auto simp: sortBy_def sorted_insertBy)



lemma dedupeFrom_set: "set (dedupeFrom seen xs) = set xs - set seen"
  by (induction seen xs rule: dedupeFrom.induct) auto

lemma dedupeFrom_distinct: "distinct (dedupeFrom seen xs)"
  by (induction seen xs rule: dedupeFrom.induct) (auto simp: dedupeFrom_set)

lemma set_dedupe: "set (dedupe xs) = set xs"
  by (simp add: dedupe_def dedupeFrom_set)

lemma distinct_dedupe: "distinct (dedupe xs)"
  by (simp add: dedupe_def dedupeFrom_distinct)

lemma codeUnitCompare_flip: "(codeUnitCompare a b \<le> 0) = (0 \<le> codeUnitCompare b a)"
  by (induction a b rule: codeUnitCompare.induct) auto

lemma codeUnitCompare_trans:
  "codeUnitCompare a b \<le> 0 \<Longrightarrow> codeUnitCompare b c \<le> 0 \<Longrightarrow> codeUnitCompare a c \<le> 0"
proof (induction a arbitrary: b c)
  case Nil
  then show ?case by (cases c) simp_all
next
  case (Cons x xs)
  from Cons.prems(1) obtain y ys where b: "b = y # ys" by (cases b) auto
  from Cons.prems(2) b obtain z zs where c: "c = z # zs" by (cases c) auto
  have xy: "(of_char x :: nat) \<le> of_char y"
    using Cons.prems(1) b by (simp split: if_splits)
  have yz: "(of_char y :: nat) \<le> of_char z"
    using Cons.prems(2) b c by (simp split: if_splits)
  show ?case
  proof (cases "(of_char x :: nat) < of_char z")
    case True
    then show ?thesis by (simp add: c)
  next
    case False
    with xy yz have "(of_char x :: nat) = of_char y" "(of_char y :: nat) = of_char z"
      by (simp_all del: of_char_eq_iff)
    then have e: "x = y" "y = z" by simp_all
    then have "codeUnitCompare xs ys \<le> 0" "codeUnitCompare ys zs \<le> 0"
      using Cons.prems b c by simp_all
    then have "codeUnitCompare xs zs \<le> 0" by (rule Cons.IH)
    with e show ?thesis by (simp add: c)
  qed
qed

lemma codeUnitCompare_consistent: "consistentCompare codeUnitCompare"
  unfolding consistentCompare_def
proof (intro conjI allI impI)
  fix a b show "(codeUnitCompare a b \<le> 0) = (0 \<le> codeUnitCompare b a)"
    by (rule codeUnitCompare_flip)
next
  fix a b c assume "codeUnitCompare a b \<le> 0 \<and> codeUnitCompare b c \<le> 0"
  then show "codeUnitCompare a c \<le> 0" using codeUnitCompare_trans by blast
qed

lemma codeUnitCompare_zero: "codeUnitCompare a b = 0 \<Longrightarrow> a = b"
  by (induction a b rule: codeUnitCompare.induct) (auto split: if_splits)

section \<open>Properties of the relevance ranking\<close>

text \<open>
  The scoring of one term, said field by field. The six fields are tested in the order of
  \<open>allFields\<close>; a field matches a term when its lower-case text contains the term.
\<close>

datatype Field = FName | FSignature | FDocs | FFile | FModule | FKind

fun fieldText :: "Field \<Rightarrow> ExtractedType \<Rightarrow> string" where
  "fieldText FName t = toLowerCase (name t)"
| "fieldText FSignature t = toLowerCase (signature t)"
| "fieldText FDocs t = toLowerCase (orElse (docs t) [])"
| "fieldText FFile t = toLowerCase (sourceFile t)"
| "fieldText FModule t = toLowerCase (moduleName t)"
| "fieldText FKind t = toLowerCase (kindText (kind t))"

fun fieldWeight :: "Field \<Rightarrow> int" where
  "fieldWeight FName = 12"
| "fieldWeight FSignature = 6"
| "fieldWeight FDocs = 5"
| "fieldWeight FFile = 4"
| "fieldWeight FModule = 5"
| "fieldWeight FKind = 4"

fun fieldLabel :: "Field \<Rightarrow> string" where
  "fieldLabel FName = ''name''"
| "fieldLabel FSignature = ''signature''"
| "fieldLabel FDocs = ''docs''"
| "fieldLabel FFile = ''file''"
| "fieldLabel FModule = ''module''"
| "fieldLabel FKind = ''kind''"

definition allFields :: "Field list" where
  "allFields = [FName, FSignature, FDocs, FFile, FModule, FKind]"

definition matchingFields :: "ExtractedType \<Rightarrow> string \<Rightarrow> Field list" where
  "matchingFields t term = filter (\<lambda>f. includesStr (fieldText f t) term) allFields"

definition termWeight :: "ExtractedType \<Rightarrow> string \<Rightarrow> int" where
  \<comment> \<open>a term equal to the name counts 25 and nothing else; any other term counts the
      weight of every field it matches\<close>
  "termWeight t term =
     (if toLowerCase (name t) = term then 25
      else sum_list (map fieldWeight (matchingFields t term)))"

definition termLabels :: "ExtractedType \<Rightarrow> string \<Rightarrow> string list" where
  \<comment> \<open>a term equal to the name records \<open>name-exact\<close> and nothing else; any other term
      records the label of every field it matches\<close>
  "termLabels t term =
     (if toLowerCase (name t) = term then [''name-exact'']
      else map fieldLabel (matchingFields t term))"

definition onlyField :: "Field \<Rightarrow> ExtractedType \<Rightarrow> string \<Rightarrow> bool" where
  \<comment> \<open>the term is not the name, and matches this field and no other\<close>
  "onlyField f t term = (toLowerCase (name t) \<noteq> term \<and> matchingFields t term = [f])"

definition relevance :: "string list \<Rightarrow> ExtractedType \<Rightarrow> int" where
  \<comment> \<open>the score the loop over the terms ends with\<close>
  "relevance terms t = fst (foldl (scoreTerm t) (0, []) terms)"

lemma hit_eq:
  "hit cond w label st = (fst st + (if cond then w else 0), snd st @ (if cond then [label] else []))"
  by (simp add: hit_def)

lemma sum_filter_Cons:
  "sum_list (map w (filter P (x # xs))) = (if P x then w x else (0::int)) + sum_list (map w (filter P xs))"
  by simp

lemma map_filter_Cons:
  "map l (filter P (x # xs)) = (if P x then [l x] else []) @ map l (filter P xs)"
  by simp

lemma scoreTerm_fields:
  "scoreTerm t st term = (fst st + termWeight t term, snd st @ termLabels t term)"
proof (cases "toLowerCase (name t) = term")
  case True
  then show ?thesis by (simp add: scoreTerm_def termWeight_def termLabels_def Let_def)
next
  case False
  have w: "termWeight t term
      = (if includesStr (toLowerCase (name t)) term then 12 else 0)
        + ((if includesStr (toLowerCase (signature t)) term then 6 else 0)
        + ((if includesStr (toLowerCase (orElse (docs t) [])) term then 5 else 0)
        + ((if includesStr (toLowerCase (sourceFile t)) term then 4 else 0)
        + ((if includesStr (toLowerCase (moduleName t)) term then 5 else 0)
        + (if includesStr (toLowerCase (kindText (kind t))) term then 4 else 0)))))"
    using False unfolding termWeight_def matchingFields_def allFields_def
    by (simp only: sum_filter_Cons if_False fieldWeight.simps fieldText.simps)
       simp
  have l: "termLabels t term
      = (if includesStr (toLowerCase (name t)) term then [''name''] else [])
        @ (if includesStr (toLowerCase (signature t)) term then [''signature''] else [])
        @ (if includesStr (toLowerCase (orElse (docs t) [])) term then [''docs''] else [])
        @ (if includesStr (toLowerCase (sourceFile t)) term then [''file''] else [])
        @ (if includesStr (toLowerCase (moduleName t)) term then [''module''] else [])
        @ (if includesStr (toLowerCase (kindText (kind t))) term then [''kind''] else [])"
    using False unfolding termLabels_def matchingFields_def allFields_def
    by (simp only: map_filter_Cons if_False fieldLabel.simps fieldText.simps)
       simp
  show ?thesis
    unfolding w l using False
    by (simp only: scoreTerm_def Let_def hit_eq if_False fst_conv snd_conv append_assoc add.assoc)
qed

lemma foldl_scoreTerm:
  "foldl (scoreTerm t) st terms
     = (fst st + sum_list (map (termWeight t) terms), snd st @ concat (map (termLabels t) terms))"
  by (induction terms arbitrary: st) (simp_all add: scoreTerm_fields)

lemma relevance_sum: "relevance terms t = sum_list (map (termWeight t) terms)"
  by (simp add: relevance_def foldl_scoreTerm)

lemma rankOne_Some:
  "rankOne terms t = Some r \<Longrightarrow>
     r = \<lparr> r_type = t, r_score = relevance terms t,
           r_matchedIn = dedupe (concat (map (termLabels t) terms)) \<rparr>
     \<and> (terms = [] \<or> 0 < relevance terms t)"
  by (auto simp: rankOne_def relevance_def Let_def foldl_scoreTerm split: if_splits)

lemma rankOne_None:
  "rankOne terms t = None \<Longrightarrow> terms \<noteq> [] \<and> relevance terms t \<le> 0"
  by (auto simp: rankOne_def relevance_def Let_def split: if_splits)

lemma set_map_filter: "set (List.map_filter f xs) = {y. \<exists>x\<in>set xs. f x = Some y}"
  by (induction xs) (auto simp: List.map_filter_simps split: option.splits)

lemma searchByContext_ranked:
  "r \<in> set (searchByContext lc allTypes query limit filters) \<Longrightarrow>
     \<exists>t\<in>set (applyFilters filters allTypes). rankOne (queryTerms query) t = Some r"
proof -
  assume "r \<in> set (searchByContext lc allTypes query limit filters)"
  then have "r \<in> set (sortBy (rankCompare lc)
        (List.map_filter (rankOne (queryTerms query)) (applyFilters filters allTypes)))"
    unfolding searchByContext_def Let_def by (rule in_set_takeD)
  then show ?thesis by (simp add: set_sortBy set_map_filter)
qed

text \<open>
  C2, as the code has it. For every returned result the score is the sum over the query
  terms of \<open>termWeight\<close>, and the labels are the labels of \<open>termLabels\<close> over the query terms
  with repetitions removed: a term equal to the lower-case name adds 25 and records only
  \<open>name-exact\<close> (no other field is tested for it, and \<open>name\<close> is not recorded); any other term
  adds the weight and records the label of every field that contains it.
\<close>

theorem searchByContext_terms:
  "r \<in> set (searchByContext lc allTypes query limit filters) \<Longrightarrow>
     r_score r = sum_list (map (termWeight (r_type r)) (queryTerms query))
     \<and> r_matchedIn r = dedupe (concat (map (termLabels (r_type r)) (queryTerms query)))
     \<and> distinct (r_matchedIn r)"
proof -
  assume "r \<in> set (searchByContext lc allTypes query limit filters)"
  then obtain t where "rankOne (queryTerms query) t = Some r"
    using searchByContext_ranked by blast
  from rankOne_Some [OF this] show ?thesis
    by (simp add: relevance_sum distinct_dedupe)
qed

theorem searchByContext_terms_witness:
  "\<lparr> r_type = fooStruct, r_score = 34, r_matchedIn = [''name-exact'', ''file'', ''module''] \<rparr>
     \<in> set (searchByContext codeUnitCompare [fooStruct] ''foo types'' 20 None)
   \<and> (34::int) = sum_list (map (termWeight fooStruct) (queryTerms ''foo types''))
   \<and> [''name-exact'', ''file'', ''module'']
       = dedupe (concat (map (termLabels fooStruct) (queryTerms ''foo types'')))
   \<and> distinct [''name-exact'', ''file'', ''module'']"
proof -
  have "searchByContext codeUnitCompare [fooStruct] ''foo types'' 20 None
        = [\<lparr> r_type = fooStruct, r_score = 34, r_matchedIn = [''name-exact'', ''file'', ''module''] \<rparr>]"
    by code_simp
  then have mem: "\<lparr> r_type = fooStruct, r_score = 34, r_matchedIn = [''name-exact'', ''file'', ''module''] \<rparr>
     \<in> set (searchByContext codeUnitCompare [fooStruct] ''foo types'' 20 None)"
    by simp
  from searchByContext_terms [OF mem] mem show ?thesis by (simp add: distinct_dedupe)
qed

text \<open>
  C2 as stated fails: the query term \<open>foo\<close> is the lower-case name of \<open>Foo\<close>, so it is also
  contained in the name, and the only label recorded is \<open>name-exact\<close>.
\<close>

theorem searchByContext_exact_only:
  "includesStr (toLowerCase (name fooStruct)) ''foo''
   \<and> map r_matchedIn (searchByContext codeUnitCompare [fooStruct] ''foo'' 20 None)
       = [[''name-exact'']]"
  by code_simp

lemma rankCompare_le: "rankCompare lc x y \<le> 0 \<Longrightarrow> r_score y \<le> r_score x"
  by (simp add: rankCompare_def split: if_splits)

lemma rankCompare_gt: "\<not> rankCompare lc x y \<le> 0 \<Longrightarrow> r_score x \<le> r_score y"
  by (simp add: rankCompare_def split: if_splits)

lemma insertBy_score_sorted:
  "sorted_wrt (\<lambda>a b. r_score b \<le> r_score a) xs \<Longrightarrow>
     sorted_wrt (\<lambda>a b. r_score b \<le> r_score a) (insertBy (rankCompare lc) x xs)"
proof (induction xs)
  case Nil
  then show ?case by simp
next
  case (Cons y ys)
  show ?case
  proof (cases "rankCompare lc x y \<le> 0")
    case True
    from rankCompare_le [OF True] Cons.prems show ?thesis
      using True by auto
  next
    case False
    have "set (insertBy (rankCompare lc) x ys) = insert x (set ys)"
      using mset_insertBy [of "rankCompare lc" x ys] by (metis set_mset_add_mset_insert set_mset_mset)
    with rankCompare_gt [OF False] Cons show ?thesis
      using False by auto
  qed
qed

lemma sortBy_score_sorted:
  "sorted_wrt (\<lambda>a b. r_score b \<le> r_score a) (sortBy (rankCompare lc) xs)"
  by (induction xs) (auto simp: sortBy_def insertBy_score_sorted)

lemma onlyField_weight: "onlyField f t term \<Longrightarrow> termWeight t term = fieldWeight f"
  by (simp add: onlyField_def termWeight_def)

text \<open>
  C3. A term equal to the name scores 25, and a term that matches one field only scores
  the weight of that field; the weights are ordered name-exact (25) above name (12) above
  signature (6) above module and documentation (5 each) above file and kind (4 each). So
  for a query of one term, wherever a declaration matched by its file path alone stands in
  the returned ranking, a candidate matched by its name alone stands at a smaller index.
\<close>

theorem searchByContext_weight_order:
  assumes terms: "queryTerms query = [term]"
    and cand: "d1 \<in> set (applyFilters filters allTypes)"
    and nameOnly: "onlyField FName d1 term"
    and fileOnly: "onlyField FFile d2 term"
    and j: "j < length (searchByContext lc allTypes query limit filters)"
    and at_j: "r_type (searchByContext lc allTypes query limit filters ! j) = d2"
  shows "(\<exists>i<j. r_type (searchByContext lc allTypes query limit filters ! i) = d1)
     \<and> (\<forall>t. fst (scoreTerm t (0, []) (toLowerCase (name t))) = 25)
     \<and> (\<forall>f t tm. onlyField f t tm \<longrightarrow> fst (scoreTerm t (0, []) tm) = fieldWeight f)
     \<and> 25 > fieldWeight FName
     \<and> fieldWeight FName > fieldWeight FSignature
     \<and> fieldWeight FSignature > fieldWeight FModule
     \<and> fieldWeight FModule = fieldWeight FDocs
     \<and> fieldWeight FDocs > fieldWeight FFile
     \<and> fieldWeight FFile = fieldWeight FKind"
proof -
  define ranked where "ranked = List.map_filter (rankOne [term]) (applyFilters filters allTypes)"
  define ordered where "ordered = sortBy (rankCompare lc) ranked"
  define res where "res = searchByContext lc allTypes query limit filters"
  have res: "res = take (nat (max 1 limit)) ordered"
    by (simp add: res_def ordered_def ranked_def searchByContext_def terms Let_def)
  have s1: "relevance [term] d1 = 12"
    using onlyField_weight [OF nameOnly] by (simp add: relevance_sum)
  have s2: "relevance [term] d2 = 4"
    using onlyField_weight [OF fileOnly] by (simp add: relevance_sum)
  obtain r1 where r1: "rankOne [term] d1 = Some r1"
    using rankOne_None [of "[term]" d1] s1 by (cases "rankOne [term] d1") auto
  have r1t: "r_type r1 = d1" and r1s: "r_score r1 = 12"
    using rankOne_Some [OF r1] s1 by auto
  have "r1 \<in> set ordered"
    using r1 cand by (auto simp: ordered_def ranked_def set_sortBy set_map_filter)
  then obtain p where p: "p < length ordered" and at_p: "ordered ! p = r1"
    by (auto simp: in_set_conv_nth)
  have jl: "j < length ordered" and rj: "res ! j = ordered ! j"
    using j by (simp_all add: res res_def [symmetric])
  have "ordered ! j \<in> set ranked"
    using jl by (metis nth_mem ordered_def set_sortBy)
  then obtain t where "rankOne [term] t = Some (ordered ! j)"
    by (auto simp: ranked_def set_map_filter)
  from rankOne_Some [OF this] at_j rj have sj: "r_score (ordered ! j) = 4"
    by (auto simp: res_def [symmetric] s2)
  have srt: "sorted_wrt (\<lambda>a b. r_score b \<le> r_score a) ordered"
    unfolding ordered_def by (rule sortBy_score_sorted)
  have "p < j"
  proof (rule ccontr)
    assume "\<not> p < j"
    moreover have "p \<noteq> j" using at_p r1s sj by auto
    ultimately have "j < p" by simp
    with srt p have "r_score (ordered ! p) \<le> r_score (ordered ! j)"
      by (simp add: sorted_wrt_iff_nth_less)
    with at_p r1s sj show False by simp
  qed
  moreover have "res ! p = ordered ! p"
    using \<open>p < j\<close> j by (simp add: res res_def [symmetric])
  ultimately have first: "\<exists>i<j. r_type (res ! i) = d1"
    using at_p r1t by auto
  have exact: "fst (scoreTerm t (0, []) (toLowerCase (name t))) = 25" for t
    by (simp add: scoreTerm_fields termWeight_def)
  have single: "fst (scoreTerm t (0, []) tm) = fieldWeight f" if "onlyField f t tm" for f t tm
    using onlyField_weight [OF that] by (simp add: scoreTerm_fields)
  from first exact single show ?thesis
    unfolding res_def by simp
qed

definition pairByName :: ExtractedType where
  "pairByName =
     \<lparr> name = ''PairPhone'',
       kind = KFunction,
       exported = True,
       sourceFile = ''client.go'',
       moduleName = ''root'',
       signature = ''func(ctx) error'',
       fullSignature = None,
       properties = None,
       methods = None,
       docs = None,
       literalValue = None,
       lineNumber = Some 10 \<rparr>"

definition pairByFile :: ExtractedType where
  "pairByFile =
     \<lparr> name = ''Container'',
       kind = KStruct,
       exported = True,
       sourceFile = ''store/pair.go'',
       moduleName = ''store'',
       signature = ''type Container struct {'',
       fullSignature = None,
       properties = None,
       methods = None,
       docs = None,
       literalValue = None,
       lineNumber = Some 3 \<rparr>"

theorem searchByContext_weight_order_witness:
  "queryTerms ''pair'' = [''pair'']
   \<and> pairByName \<in> set (applyFilters None [pairByFile, pairByName])
   \<and> onlyField FName pairByName ''pair''
   \<and> onlyField FFile pairByFile ''pair''
   \<and> 1 < length (searchByContext codeUnitCompare [pairByFile, pairByName] ''pair'' 20 None)
   \<and> r_type (searchByContext codeUnitCompare [pairByFile, pairByName] ''pair'' 20 None ! 1) = pairByFile
   \<and> (\<exists>i<1. r_type (searchByContext codeUnitCompare [pairByFile, pairByName] ''pair'' 20 None ! i)
          = pairByName)"
proof -
  have a: "queryTerms ''pair'' = [''pair'']" by code_simp
  have b: "pairByName \<in> set (applyFilters None [pairByFile, pairByName])"
    by (simp add: applyFilters_def)
  have c: "onlyField FName pairByName ''pair''" by code_simp
  have d: "onlyField FFile pairByFile ''pair''" by code_simp
  have e: "1 < length (searchByContext codeUnitCompare [pairByFile, pairByName] ''pair'' 20 None)"
    by code_simp
  have f: "r_type (searchByContext codeUnitCompare [pairByFile, pairByName] ''pair'' 20 None ! 1) = pairByFile"
    by code_simp
  from searchByContext_weight_order [OF a b c d e f]
  have "\<exists>i<1. r_type (searchByContext codeUnitCompare [pairByFile, pairByName] ''pair'' 20 None ! i)
          = pairByName"
    by (rule conjunct1)
  with a b c d e f show ?thesis by (intro conjI)
qed






lemma set_applyFilters: "set (applyFilters filters xs) \<subseteq> set xs"
  by (auto simp: applyFilters_def Let_def split: option.splits if_splits)


definition runOfA :: ExtractedType where
  "runOfA =
     \<lparr> name = ''Run'',
       kind = KMethod,
       exported = True,
       sourceFile = ''a/x.go'',
       moduleName = ''a'',
       signature = ''func (a *A) Run() error {'',
       fullSignature = None,
       properties = None,
       methods = None,
       docs = None,
       literalValue = None,
       lineNumber = Some 7 \<rparr>"




section \<open>Properties of the module summary\<close>

definition ranksBefore :: "(string \<Rightarrow> string \<Rightarrow> int) \<Rightarrow> ExtractedType \<Rightarrow> ExtractedType \<Rightarrow> bool" where
  \<comment> \<open>a higher interest score, or the same score and a name that does not sort after\<close>
  "ranksBefore lc a b =
     (highlightScore b < highlightScore a
      \<or> (highlightScore a = highlightScore b \<and> lc (name a) (name b) \<le> 0))"

lemma highlightCompare_ranks: "(highlightCompare lc a b \<le> 0) = ranksBefore lc a b"
  by (auto simp: highlightCompare_def ranksBefore_def Let_def)

lemma highlightCompare_consistent:
  assumes c: "consistentCompare lc"
  shows "consistentCompare (highlightCompare lc)"
  unfolding consistentCompare_def
proof (intro conjI allI impI)
  fix a b :: ExtractedType
  from c have "(lc (name a) (name b) \<le> 0) = (0 \<le> lc (name b) (name a))"
    by (simp add: consistentCompare_def)
  then show "(highlightCompare lc a b \<le> 0) = (0 \<le> highlightCompare lc b a)"
    by (auto simp: highlightCompare_def Let_def)
next
  fix a b d :: ExtractedType
  assume "highlightCompare lc a b \<le> 0 \<and> highlightCompare lc b d \<le> 0"
  then have h: "ranksBefore lc a b" "ranksBefore lc b d"
    by (simp_all add: highlightCompare_ranks)
  have "ranksBefore lc a d"
  proof (cases "highlightScore a = highlightScore b \<and> highlightScore b = highlightScore d")
    case True
    with h have "lc (name a) (name b) \<le> 0" "lc (name b) (name d) \<le> 0"
      by (auto simp: ranksBefore_def)
    then have "lc (name a) (name d) \<le> 0" by (rule consistent_trans [OF c])
    with True show ?thesis by (simp add: ranksBefore_def)
  next
    case False
    with h show ?thesis by (auto simp: ranksBefore_def)
  qed
  then show "highlightCompare lc a d \<le> 0" by (simp add: highlightCompare_ranks)
qed

text \<open>
  C9, as the code has it. The interest score of a declaration is 2 when it is documented,
  plus 4 when it is a function or a method, plus 3 when it is an interface or a struct,
  plus 1 when its name has at most 24 characters. The highlights are the first
  \<open>max 1 highlightCount\<close> declarations of the module in the order of that score, highest
  first, ties by ascending name: they are in that order, every declaration of the module
  left out ranks after every one kept, and there are \<open>max 1 highlightCount\<close> of them or,
  when the module has fewer declarations, all of them. A count of zero or below is taken
  as one.
\<close>

theorem summarizeModule_highlights:
  assumes c: "consistentCompare lc"
  shows "length (s_highlights (summarizeModule lc allTypes modName highlightCount))
           = min (length (getTypesFromModule allTypes modName)) (nat (max 1 highlightCount))
     \<and> sorted_wrt (ranksBefore lc) (s_highlights (summarizeModule lc allTypes modName highlightCount))
     \<and> (\<exists>rest. mset (s_highlights (summarizeModule lc allTypes modName highlightCount) @ rest)
                  = mset (getTypesFromModule allTypes modName)
               \<and> (\<forall>a\<in>set (s_highlights (summarizeModule lc allTypes modName highlightCount)).
                    \<forall>b\<in>set rest. ranksBefore lc a b))
     \<and> (\<forall>t. highlightScore t
              = (if docs t = None \<or> docs t = Some [] then 0 else 2)
                + (if kind t \<in> {KFunction, KMethod} then 4 else 0)
                + (if kind t \<in> {KInterface, KStruct} then 3 else 0)
                + (if length (name t) \<le> 24 then 1 else 0))
     \<and> (\<forall>a b. ranksBefore lc a b
              = (highlightScore b < highlightScore a
                 \<or> (highlightScore a = highlightScore b \<and> lc (name a) (name b) \<le> 0)))"
proof -
  define ts where "ts = getTypesFromModule allTypes modName"
  define ordered where "ordered = sortBy (highlightCompare lc) ts"
  define k where "k = nat (max 1 highlightCount)"
  have hs: "s_highlights (summarizeModule lc allTypes modName highlightCount) = take k ordered"
    by (simp add: summarizeModule_def Let_def ts_def ordered_def k_def)
  have srt: "sorted_wrt (ranksBefore lc) ordered"
    using sorted_sortBy [OF highlightCompare_consistent [OF c], of ts]
    by (simp add: ordered_def highlightCompare_ranks)
  then have parts: "sorted_wrt (ranksBefore lc) (take k ordered @ drop k ordered)" by simp
  have len: "length (take k ordered) = min (length ts) k"
    by (simp add: ordered_def length_sortBy)
  have srt_take: "sorted_wrt (ranksBefore lc) (take k ordered)"
    using parts unfolding sorted_wrt_append by blast
  have cross: "\<forall>a\<in>set (take k ordered). \<forall>b\<in>set (drop k ordered). ranksBefore lc a b"
    using parts unfolding sorted_wrt_append by blast
  have "mset (take k ordered @ drop k ordered) = mset ts"
    by (simp add: ordered_def mset_sortBy)
  with cross have "\<exists>rest. mset (take k ordered @ rest) = mset ts
      \<and> (\<forall>a\<in>set (take k ordered). \<forall>b\<in>set rest. ranksBefore lc a b)"
    by blast
  with len srt_take have main: "length (take k ordered) = min (length ts) k
      \<and> sorted_wrt (ranksBefore lc) (take k ordered)
      \<and> (\<exists>rest. mset (take k ordered @ rest) = mset ts
            \<and> (\<forall>a\<in>set (take k ordered). \<forall>b\<in>set rest. ranksBefore lc a b))"
    by blast
  have score: "highlightScore t
              = (if docs t = None \<or> docs t = Some [] then 0 else 2)
                + (if kind t \<in> {KFunction, KMethod} then 4 else 0)
                + (if kind t \<in> {KInterface, KStruct} then 3 else 0)
                + (if length (name t) \<le> 24 then 1 else 0)" for t
    by (simp add: highlightScore_def orElse_def split: option.splits)
  have order: "ranksBefore lc a b
              = (highlightScore b < highlightScore a
                 \<or> (highlightScore a = highlightScore b \<and> lc (name a) (name b) \<le> 0))" for a b
    by (simp add: ranksBefore_def)
  from main score order show ?thesis
    unfolding hs ts_def [symmetric] k_def [symmetric] by blast
qed

definition storeTypes :: "ExtractedType list" where
  "storeTypes = [pairByFile, runOfA, pairByFile \<lparr> name := ''Device'', docs := Some ''Device is a device.'' \<rparr>]"

theorem summarizeModule_highlights_witness:
  "consistentCompare codeUnitCompare
   \<and> map name (s_highlights (summarizeModule codeUnitCompare storeTypes ''store'' 5))
       = [''Device'', ''Container'']
   \<and> length (s_highlights (summarizeModule codeUnitCompare storeTypes ''store'' 5))
       = min (length (getTypesFromModule storeTypes ''store'')) (nat (max 1 5))
   \<and> sorted_wrt (ranksBefore codeUnitCompare)
        (s_highlights (summarizeModule codeUnitCompare storeTypes ''store'' 5))
   \<and> map highlightScore storeTypes = [4, 5, 6]"
proof -
  have a: "map name (s_highlights (summarizeModule codeUnitCompare storeTypes ''store'' 5))
       = [''Device'', ''Container'']"
    by code_simp
  from summarizeModule_highlights [OF codeUnitCompare_consistent, of storeTypes "''store''" 5]
  have b: "length (s_highlights (summarizeModule codeUnitCompare storeTypes ''store'' 5))
       = min (length (getTypesFromModule storeTypes ''store'')) (nat (max 1 5))"
    and c: "sorted_wrt (ranksBefore codeUnitCompare)
        (s_highlights (summarizeModule codeUnitCompare storeTypes ''store'' 5))"
    and score: "\<And>t. highlightScore t
              = (if docs t = None \<or> docs t = Some [] then 0 else 2)
                + (if kind t \<in> {KFunction, KMethod} then 4 else 0)
                + (if kind t \<in> {KInterface, KStruct} then 3 else 0)
                + (if length (name t) \<le> 24 then 1 else 0)"
    by blast+
  have d: "map highlightScore storeTypes = [4, 5, 6]"
    unfolding storeTypes_def list.map score
    by (simp add: pairByFile_def runOfA_def)
  from codeUnitCompare_consistent a b c d show ?thesis by (intro conjI)
qed

text \<open>
  C9 as stated fails at \<open>highlightCount = 0\<close>: the module has declarations, and one of them
  is returned.
\<close>

theorem summarizeModule_zero_count:
  "\<not> int (length (s_highlights (summarizeModule codeUnitCompare storeTypes ''store'' 0))) \<le> 0"
  by code_simp

section \<open>Properties of the dependency analysis\<close>

definition importsOf :: "(string \<times> string) list \<Rightarrow> string \<Rightarrow> string set" where
  \<comment> \<open>the imports found in the files of one module\<close>
  "importsOf files m =
     (\<Union>f\<in>set files. if getModuleName (fst f) = m then set (extractImports (snd f)) else {})"

definition exportsOf :: "ExtractedType list \<Rightarrow> string \<Rightarrow> string set" where
  \<comment> \<open>the names of the declarations whose module field is this module\<close>
  "exportsOf allTypes m = {name t |t. t \<in> set allTypes \<and> moduleName t = m}"

lemma setAdd_set: "set (setAdd x xs) = insert x (set xs)"
  by (auto simp: setAdd_def)

lemma setAdd_distinct: "distinct xs \<Longrightarrow> distinct (setAdd x xs)"
  by (auto simp: setAdd_def)

lemma foldl_setAdd_set: "set (foldl (\<lambda>acc x. setAdd x acc) xs ys) = set xs \<union> set ys"
  by (induction ys arbitrary: xs) (auto simp: setAdd_set)

lemma foldl_setAdd_distinct: "distinct xs \<Longrightarrow> distinct (foldl (\<lambda>acc x. setAdd x acc) xs ys)"
  by (induction ys arbitrary: xs) (auto simp: setAdd_distinct)

text \<open>The state of \<open>byModule\<close> after the loop over the files.\<close>

definition filesState :: "(string \<times> string) list \<Rightarrow> (string \<times> string list \<times> string list) list \<Rightarrow> bool" where
  "filesState files byModule =
     (distinct (map fst byModule)
      \<and> (\<forall>m. case map_of byModule m of
                None \<Rightarrow> m \<notin> getModuleName ` fst ` set files
              | Some entry \<Rightarrow> m \<in> getModuleName ` fst ` set files
                  \<and> distinct (fst entry) \<and> set (fst entry) = importsOf files m \<and> snd entry = []))"

lemma filesState_empty: "filesState [] []"
  by (simp add: filesState_def)

lemma filesState_step:
  assumes st: "filesState files byModule"
  shows "filesState (files @ [f]) (addFileImports byModule f)"
proof -
  define k where "k = getModuleName (fst f)"
  define b1 where "b1 = (if map_of byModule k = None then AList.update k ([], []) byModule else byModule)"
  have d1: "distinct (map fst b1)"
    using st by (simp add: b1_def filesState_def distinct_update)
  have m1: "map_of b1 = (if map_of byModule k = None then (map_of byModule)(k \<mapsto> ([], [])) else map_of byModule)"
    by (simp add: b1_def update_conv')
  obtain entry where e: "map_of b1 k = Some entry"
    by (cases "map_of byModule k") (auto simp: m1)
  have stk: "case map_of byModule k of
          None \<Rightarrow> k \<notin> getModuleName ` fst ` set files
        | Some entry \<Rightarrow> k \<in> getModuleName ` fst ` set files
            \<and> distinct (fst entry) \<and> set (fst entry) = importsOf files k \<and> snd entry = []"
    using st by (simp add: filesState_def)
  have e0: "distinct (fst entry) \<and> set (fst entry) = importsOf files k \<and> snd entry = []"
  proof (cases "map_of byModule k")
    case None
    with stk have "k \<notin> getModuleName ` fst ` set files" by simp
    then have "importsOf files k = {}" by (auto simp: importsOf_def)
    with None e show ?thesis by (auto simp: m1)
  next
    case (Some x)
    with e have "x = entry" by (simp add: m1)
    with stk Some show ?thesis by simp
  qed
  define entry' where "entry' = (foldl (\<lambda>imps imported. setAdd imported imps) (fst entry)
                                   (extractImports (snd f)), snd entry)"
  have res: "addFileImports byModule f = AList.update k entry' b1"
    using e by (simp add: addFileImports_def Let_def k_def [symmetric] b1_def [symmetric] entry'_def)
  have mres: "map_of (addFileImports byModule f) = (map_of b1)(k \<mapsto> entry')"
    by (simp add: res update_conv')
  have imp_k: "importsOf (files @ [f]) k = importsOf files k \<union> set (extractImports (snd f))"
    by (auto simp: importsOf_def k_def)
  have imp_other: "importsOf (files @ [f]) m = importsOf files m" if "m \<noteq> k" for m
    using that by (auto simp: importsOf_def k_def)
  have mods: "getModuleName ` fst ` set (files @ [f]) = insert k (getModuleName ` fst ` set files)"
    by (auto simp: k_def)
  have "case map_of (addFileImports byModule f) m of
          None \<Rightarrow> m \<notin> getModuleName ` fst ` set (files @ [f])
        | Some entry \<Rightarrow> m \<in> getModuleName ` fst ` set (files @ [f])
            \<and> distinct (fst entry) \<and> set (fst entry) = importsOf (files @ [f]) m \<and> snd entry = []"
    for m
  proof (cases "m = k")
    case True
    then show ?thesis
      using e0 by (simp add: mres entry'_def foldl_setAdd_set foldl_setAdd_distinct imp_k)
                  (simp add: k_def)
  next
    case False
    have same: "map_of (addFileImports byModule f) m = map_of byModule m"
      using False by (simp add: mres m1)
    have old: "case map_of byModule m of
          None \<Rightarrow> m \<notin> getModuleName ` fst ` set files
        | Some entry \<Rightarrow> m \<in> getModuleName ` fst ` set files
            \<and> distinct (fst entry) \<and> set (fst entry) = importsOf files m \<and> snd entry = []"
      using st by (simp add: filesState_def)
    show ?thesis
    proof (cases "map_of byModule m")
      case None
      with old have "m \<notin> getModuleName ` fst ` set files" by simp
      with False show ?thesis unfolding mods same None by simp
    next
      case (Some x)
      with old have "m \<in> getModuleName ` fst ` set files
            \<and> distinct (fst x) \<and> set (fst x) = importsOf files m \<and> snd x = []" by simp
      then show ?thesis unfolding mods same Some imp_other [OF False] by simp
    qed
  qed
  moreover have "distinct (map fst (addFileImports byModule f))"
    using d1 by (simp add: res distinct_update)
  ultimately show ?thesis
    unfolding filesState_def by blast
qed

lemma filesState_foldl:
  "filesState seen byModule \<Longrightarrow> filesState (seen @ files) (foldl addFileImports byModule files)"
proof (induction files arbitrary: seen byModule)
  case Nil
  then show ?case by simp
next
  case (Cons f files)
  from Cons.IH [OF filesState_step [OF Cons.prems, of f]] show ?case by simp
qed

lemma addExport_keys: "distinct (map fst byModule) \<Longrightarrow> distinct (map fst (addExport byModule t))"
  by (simp add: addExport_def distinct_update split: option.splits)

lemma addExport_map_of:
  "map_of (addExport byModule t) m =
     map_option (\<lambda>entry. (fst entry, if moduleName t = m then setAdd (name t) (snd entry) else snd entry))
       (map_of byModule m)"
  by (cases "map_of byModule (moduleName t)")
     (auto simp: addExport_def update_conv' map_option_case split: option.splits)

lemma foldl_addExport_keys:
  "distinct (map fst byModule) \<Longrightarrow> distinct (map fst (foldl addExport byModule ts))"
  by (induction ts arbitrary: byModule) (simp_all add: addExport_keys)

lemma foldl_addExport_map_of:
  "map_of (foldl addExport byModule ts) m =
     map_option (\<lambda>entry. (fst entry,
         foldl (\<lambda>acc x. setAdd x acc) (snd entry) (map name (filter (\<lambda>t. moduleName t = m) ts))))
       (map_of byModule m)"
proof (induction ts arbitrary: byModule)
  case Nil
  then show ?case by (simp add: option.map_ident)
next
  case (Cons t ts)
  show ?case
    by (cases "map_of byModule m") (simp_all add: Cons.IH addExport_map_of)
qed

text \<open>
  C6. Every entry of the report has as exports exactly the names of the declarations of
  the index whose module field is the entry's module, and as imports exactly the imports
  found in the files of that module (a file adds to the imports only); both lists are
  free of duplicates and sorted by the name comparison.
\<close>

theorem analyzeDependencies_exports:
  assumes c: "consistentCompare lc"
    and e: "e \<in> set (analyzeDependencies lc files allTypes)"
  shows "set (d_exports e) = exportsOf allTypes (d_module e)
     \<and> distinct (d_exports e)
     \<and> sorted_wrt (\<lambda>a b. lc a b \<le> 0) (d_exports e)
     \<and> set (d_imports e) = importsOf files (d_module e)
     \<and> distinct (d_imports e)
     \<and> sorted_wrt (\<lambda>a b. lc a b \<le> 0) (d_imports e)"
proof -
  define b1 where "b1 = foldl addFileImports [] files"
  define b2 where "b2 = foldl addExport b1 allTypes"
  have st: "filesState files b1"
    using filesState_foldl [OF filesState_empty, of files] by (simp add: b1_def)
  then have d1: "distinct (map fst b1)" by (simp add: filesState_def)
  have d2: "distinct (map fst b2)"
    unfolding b2_def by (rule foldl_addExport_keys [OF d1])
  from e obtain m data where md: "(m, data) \<in> set b2"
    and e_eq: "e = \<lparr> d_module = m, d_imports = sortBy lc (fst data),
                      d_exports = sortBy lc (snd data), d_reExportsFrom = [] \<rparr>"
    by (auto simp: analyzeDependencies_def Let_def set_sortBy b1_def b2_def)
  from md d2 have "map_of b2 m = Some data" by simp
  then obtain entry where en: "map_of b1 m = Some entry"
    and data: "data = (fst entry, foldl (\<lambda>acc x. setAdd x acc) (snd entry)
                         (map name (filter (\<lambda>t. moduleName t = m) allTypes)))"
    by (auto simp: b2_def foldl_addExport_map_of)
  have "case map_of b1 m of
          None \<Rightarrow> m \<notin> getModuleName ` fst ` set files
        | Some entry \<Rightarrow> m \<in> getModuleName ` fst ` set files
            \<and> distinct (fst entry) \<and> set (fst entry) = importsOf files m \<and> snd entry = []"
    using st by (simp add: filesState_def)
  with en have en': "distinct (fst entry)" "set (fst entry) = importsOf files m" "snd entry = []"
    by simp_all
  have ex_set: "set (snd data) = exportsOf allTypes m"
    by (auto simp: data en' foldl_setAdd_set exportsOf_def)
  have ex_dist: "distinct (snd data)"
    by (simp add: data en' foldl_setAdd_distinct)
  show ?thesis
    using ex_set ex_dist en' sorted_sortBy [OF c]
    by (simp add: e_eq set_sortBy distinct_sortBy data)
qed

definition depFiles :: "(string \<times> string) list" where
  "depFiles =
     [(''store/container.go'',
       ''package store\<newline>import (\<newline>  \"fmt\"\<newline>  waLog \"go.mau.fi/util/log\"\<newline>)''),
      (''client.go'', ''package whatsmeow\<newline>import \"fmt\"''),
      (''store/pair.go'', ''package store\<newline>import \"fmt\"\<newline>import \"errors\"'')]"

definition depTypes :: "ExtractedType list" where
  "depTypes = [pairByFile, pairByName, pairByFile \<lparr> name := ''Device'' \<rparr>, pairByFile]"

theorem analyzeDependencies_exports_witness:
  "consistentCompare codeUnitCompare
   \<and> \<lparr> d_module = ''store'', d_imports = [''errors'', ''fmt'', ''go.mau.fi/util/log''],
        d_exports = [''Container'', ''Device''], d_reExportsFrom = [] \<rparr>
       \<in> set (analyzeDependencies codeUnitCompare depFiles depTypes)
   \<and> set [''Container'', ''Device''] = exportsOf depTypes ''store''
   \<and> set [''errors'', ''fmt'', ''go.mau.fi/util/log''] = importsOf depFiles ''store''"
proof -
  have "analyzeDependencies codeUnitCompare depFiles depTypes
        = [\<lparr> d_module = ''root'', d_imports = [''fmt''], d_exports = [''PairPhone''],
              d_reExportsFrom = [] \<rparr>,
           \<lparr> d_module = ''store'', d_imports = [''errors'', ''fmt'', ''go.mau.fi/util/log''],
              d_exports = [''Container'', ''Device''], d_reExportsFrom = [] \<rparr>]"
    by code_simp
  then have mem: "\<lparr> d_module = ''store'', d_imports = [''errors'', ''fmt'', ''go.mau.fi/util/log''],
        d_exports = [''Container'', ''Device''], d_reExportsFrom = [] \<rparr>
       \<in> set (analyzeDependencies codeUnitCompare depFiles depTypes)"
    by simp
  from analyzeDependencies_exports [OF codeUnitCompare_consistent mem]
  have "set [''Container'', ''Device''] = exportsOf depTypes ''store''"
    and "set [''errors'', ''fmt'', ''go.mau.fi/util/log''] = importsOf depFiles ''store''"
    by simp_all
  with codeUnitCompare_consistent mem show ?thesis by (intro conjI)
qed

section \<open>Properties of the declaration scanner\<close>

text \<open>
  The turns of the loop of \<open>extractFromContent\<close> from \<open>index\<close> on: for each turn the index
  it looks at, the declarations it pushes, and the value of \<open>index\<close> where it ends (the next
  turn starts one further).
\<close>

function scanTrace :: "string \<Rightarrow> string \<Rightarrow> string list \<Rightarrow> nat \<Rightarrow> (nat \<times> ExtractedType list \<times> int) list" where
  "scanTrace relativeFile modName lines index =
     (if index < length lines then
        (case scanStep relativeFile modName lines index of
           Inl e \<Rightarrow> []
         | Inr (found, index') \<Rightarrow>
             (index, found, index') # scanTrace relativeFile modName lines (nat (index' + 1)))
      else [])"
  by pat_completeness auto
termination
proof (relation "measure (\<lambda>(relativeFile, modName, lines, index). length lines - index)", goal_cases)
  case 1
  show ?case by simp
next
  case (2 relativeFile modName lines index x2 found index')
  then have "int index \<le> index'"
    using scanStep_index [of index lines relativeFile modName found index'] by simp
  with 2 show ?case by simp
qed

declare scanTrace.simps [simp del]

lemma scanStep_total:
  "index < length lines \<Longrightarrow> \<exists>found index'. scanStep relativeFile modName lines index = Inr (found, index')"
  by (cases "scanLine relativeFile modName lines index
               (orUndefined (trim (join '' '' (docWalk lines index []))))")
     (simp add: scanStep_def extractDocAbove_def Let_def orUndefined_def)

lemma extractLoop_trace:
  "extractLoop relativeFile modName lines index results
     = Inr (results @ concat (map (fst \<circ> snd) (scanTrace relativeFile modName lines index)))"
proof (induction relativeFile modName lines index results rule: extractLoop.induct)
  case (1 relativeFile modName lines index results)
  show ?case
  proof (cases "index < length lines")
    case False
    then show ?thesis
      by (subst extractLoop.simps, subst scanTrace.simps) simp
  next
    case True
    from scanStep_total [OF True] obtain found index'
      where st: "scanStep relativeFile modName lines index = Inr (found, index')" by blast
    from "1.IH" [OF True st refl]
    have "extractLoop relativeFile modName lines (nat (index' + 1)) (results @ found)
          = Inr ((results @ found)
              @ concat (map (fst \<circ> snd) (scanTrace relativeFile modName lines (nat (index' + 1)))))" .
    with True st show ?thesis
      by (subst extractLoop.simps, subst scanTrace.simps) simp
  qed
qed

lemma scanTrace_turn:
  "(index, found, index') \<in> set (scanTrace relativeFile modName lines start) \<Longrightarrow>
     start \<le> index \<and> index < length lines
     \<and> scanStep relativeFile modName lines index = Inr (found, index')"
proof (induction relativeFile modName lines start rule: scanTrace.induct)
  case (1 relativeFile modName lines start)
  have lt: "start < length lines"
  proof (rule ccontr)
    assume "\<not> start < length lines"
    with "1.prems" show False by (subst (asm) scanTrace.simps) simp
  qed
  from scanStep_total [OF lt] obtain f0 i0
    where st: "scanStep relativeFile modName lines start = Inr (f0, i0)" by blast
  have le: "int start \<le> i0" by (rule scanStep_index [OF lt st])
  from "1.prems" lt st
  have "(index, found, index') = (start, f0, i0)
        \<or> (index, found, index') \<in> set (scanTrace relativeFile modName lines (nat (i0 + 1)))"
    by (subst (asm) scanTrace.simps) simp
  then show ?case
  proof
    assume "(index, found, index') = (start, f0, i0)"
    with lt st show ?thesis by simp
  next
    assume "(index, found, index') \<in> set (scanTrace relativeFile modName lines (nat (i0 + 1)))"
    from "1.IH" [OF lt st refl this] le show ?thesis by auto
  qed
qed

definition constFile :: string where
  "constFile = ''package foo\<newline>\<newline>const (\<newline>  A = 1\<newline>)''"

text \<open>
  C7 fails on the code for the members of a grouped block. In this file the constant
  \<open>A\<close> stands on line 4 (index 3), and the scanner gives it line number 2: its index among
  the lines of the block, plus one.
\<close>

theorem extractFromContent_member_line:
  "splitLines constFile ! 3 = ''  A = 1''
   \<and> map_sum id (map (\<lambda>d. (name d, kind d, lineNumber d))) (extractFromContent ''foo/consts.go'' constFile)
       = Inr [(''A'', KConst, Some 2)]"
  by code_simp

lemma matchStart_first:
  "matchStart (Lit c # r) s = Some m \<Longrightarrow> \<exists>cs. s = c # cs"
  by (cases s) (auto simp: matchStart_def split: if_splits)

lemma matchStart_other:
  "s = x # xs \<Longrightarrow> x \<noteq> c \<Longrightarrow> matchStart (Lit c # r) s = None"
  by (simp add: matchStart_def)

lemma scanLine_constBlock:
  assumes "testStart constBlockRx (trim (lines ! index))"
  shows "scanLine relativeFile modName lines index dcs
         = onBlock KConst relativeFile modName lines index dcs"
proof -
  from assms obtain cs where l: "trim (lines ! index) = CHR ''c'' # cs"
    by (auto simp: testStart_def constBlockRx_def lits_def dest: matchStart_first)
  have "matchStart interfaceRx (trim (lines ! index)) = None"
       "matchStart structRx (trim (lines ! index)) = None"
       "matchStart typeRx (trim (lines ! index)) = None"
       "matchStart methodRx (trim (lines ! index)) = None"
       "matchStart functionRx (trim (lines ! index)) = None"
    unfolding interfaceRx_def structRx_def typeRx_def methodRx_def functionRx_def lits_def
    by (simp_all add: matchStart_other [OF l])
  with assms show ?thesis by (simp add: scanLine_def Let_def)
qed

lemma scanLine_varBlock:
  assumes "testStart varBlockRx (trim (lines ! index))"
  shows "scanLine relativeFile modName lines index dcs
         = onBlock KVariable relativeFile modName lines index dcs"
proof -
  from assms obtain cs where l: "trim (lines ! index) = CHR ''v'' # cs"
    by (auto simp: testStart_def varBlockRx_def lits_def dest: matchStart_first)
  have "matchStart interfaceRx (trim (lines ! index)) = None"
       "matchStart structRx (trim (lines ! index)) = None"
       "matchStart typeRx (trim (lines ! index)) = None"
       "matchStart methodRx (trim (lines ! index)) = None"
       "matchStart functionRx (trim (lines ! index)) = None"
       "\<not> testStart constBlockRx (trim (lines ! index))"
    unfolding interfaceRx_def structRx_def typeRx_def methodRx_def functionRx_def constBlockRx_def
      lits_def testStart_def
    by (simp_all add: matchStart_other [OF l])
  with assms show ?thesis by (simp add: scanLine_def Let_def)
qed

lemma extractDocAbove_above:
  "index \<le> length lines \<Longrightarrow> extractDocAbove (take index lines) index = extractDocAbove lines index"
  by (simp add: extractDocAbove_def docWalk_fresh)

text \<open>
  C10. A turn of the scan at the opening line of a grouped \<open>const (\<close> or \<open>var (\<close> block
  pushes the capitalised members of the block, every one with the same documentation:
  the one read above the opening line, which depends on the lines above that line only.
  The result of the scan is the declarations of its turns, in order.
\<close>

theorem grouped_block_docs:
  assumes turn: "(index, found, index')
        \<in> set (scanTrace relativeFile (getModuleName relativeFile) (splitLines content) 0)"
    and opener: "testStart constBlockRx (trim (splitLines content ! index))
                 \<or> testStart varBlockRx (trim (splitLines content ! index))"
  shows "\<exists>dcs k. extractDocAbove (splitLines content) index = Inr dcs
           \<and> extractDocAbove (take index (splitLines content)) index = Inr dcs
           \<and> (k = KConst \<or> k = KVariable)
           \<and> found = map (memberDecl k relativeFile (getModuleName relativeFile) dcs)
                        (filter (\<lambda>member. testStart upperStartRx (m_name member))
                           (parseConstVarBlockMembers (fst (captureParenBlock (splitLines content) index))))
           \<and> (\<forall>d\<in>set found. docs d = dcs)
           \<and> extractFromContent relativeFile content
               = Inr (concat (map (fst \<circ> snd)
                   (scanTrace relativeFile (getModuleName relativeFile) (splitLines content) 0)))"
proof -
  define lines where "lines = splitLines content"
  define modName where "modName = getModuleName relativeFile"
  from scanTrace_turn [OF turn]
  have lt: "index < length lines" and st: "scanStep relativeFile modName lines index = Inr (found, index')"
    by (simp_all add: lines_def modName_def)
  obtain dcs where dcs: "extractDocAbove lines index = Inr dcs"
    using lt by (simp add: extractDocAbove_def Let_def)
  have above: "extractDocAbove (take index lines) index = Inr dcs"
    using extractDocAbove_above [of index lines] lt dcs by simp
  have nonblank: "trim (lines ! index) \<noteq> []"
    using opener
    by (auto simp: lines_def testStart_def constBlockRx_def varBlockRx_def lits_def matchStart_def)
  have sl: "scanLine relativeFile modName lines index dcs = (found, index')"
    using st nonblank dcs by (simp add: scanStep_def)
  obtain k where k: "k = KConst \<or> k = KVariable"
    and ob: "scanLine relativeFile modName lines index dcs = onBlock k relativeFile modName lines index dcs"
    using opener scanLine_constBlock [of lines index relativeFile modName dcs]
      scanLine_varBlock [of lines index relativeFile modName dcs]
    unfolding lines_def by blast
  have found: "found = map (memberDecl k relativeFile modName dcs)
                        (filter (\<lambda>member. testStart upperStartRx (m_name member))
                           (parseConstVarBlockMembers (fst (captureParenBlock lines index))))"
    using sl ob by (simp add: onBlock_def Let_def)
  then have same: "\<forall>d\<in>set found. docs d = dcs"
    by (auto simp: memberDecl_def)
  have whole: "extractFromContent relativeFile content
               = Inr (concat (map (fst \<circ> snd) (scanTrace relativeFile modName lines 0)))"
    by (simp add: extractFromContent_def extractLoop_trace lines_def modName_def)
  from dcs above k found same whole show ?thesis
    unfolding lines_def modName_def by blast
qed

definition statusFile :: string where
  "statusFile = ''package foo\<newline>// Status codes.\<newline>const (\<newline>  // ok value\<newline>  StatusOK = 200\<newline>  // internal\<newline>  statusHidden = 1\<newline>  StatusBad = 400 // trailing\<newline>)''"

theorem grouped_block_docs_witness:
  "testStart constBlockRx (trim (splitLines statusFile ! 2))
   \<and> map (\<lambda>d. (name d, docs d))
        (fst (snd (scanTrace ''foo/status.go'' (getModuleName ''foo/status.go'') (splitLines statusFile) 0 ! 2)))
       = [(''StatusOK'', Some ''Status codes.''), (''StatusBad'', Some ''Status codes.'')]
   \<and> list_all (\<lambda>d. Inr (docs d) = extractDocAbove (splitLines statusFile) 2)
        (fst (snd (scanTrace ''foo/status.go'' (getModuleName ''foo/status.go'') (splitLines statusFile) 0 ! 2)))"
proof -
  define tr where "tr = scanTrace ''foo/status.go'' (getModuleName ''foo/status.go'') (splitLines statusFile) 0"
  have len: "2 < length tr" unfolding tr_def by code_simp
  have idx: "fst (tr ! 2) = 2" unfolding tr_def by code_simp
  have op: "testStart constBlockRx (trim (splitLines statusFile ! 2))" by code_simp
  have ev: "map (\<lambda>d. (name d, docs d)) (fst (snd (tr ! 2)))
       = [(''StatusOK'', Some ''Status codes.''), (''StatusBad'', Some ''Status codes.'')]"
    unfolding tr_def by code_simp
  have mem: "(fst (tr ! 2), fst (snd (tr ! 2)), snd (snd (tr ! 2))) \<in> set tr"
    using nth_mem [OF len] by simp
  have op': "testStart constBlockRx (trim (splitLines statusFile ! fst (tr ! 2)))
             \<or> testStart varBlockRx (trim (splitLines statusFile ! fst (tr ! 2)))"
    using op idx by simp
  from grouped_block_docs [OF mem [unfolded tr_def] op' [unfolded tr_def]]
  obtain dcs where "extractDocAbove (splitLines statusFile) (fst (tr ! 2)) = Inr dcs"
    and "\<forall>d\<in>set (fst (snd (tr ! 2))). docs d = dcs"
    unfolding tr_def by blast
  then have "list_all (\<lambda>d. Inr (docs d) = extractDocAbove (splitLines statusFile) 2) (fst (snd (tr ! 2)))"
    by (simp add: idx list_all_iff)
  with op ev show ?thesis unfolding tr_def by (intro conjI)
qed






























end
